theory Spec2Isabelle
  imports Complex_Main
begin

section \<open>Values of the editor page\<close>

text \<open>
  The editor page (\<^verbatim>\<open>EditorPage\<close>) keeps a canvas of drawable objects and a set of React
  state variables. JavaScript numbers are modelled as exact rationals: rounding of the
  double arithmetic is not part of the model, so a quotient below stands for the quotient
  the page computes, and nothing is claimed that needs a product or a sum of such values
  to be exact. Every divisor that occurs is positive on the inputs considered (page sizes
  of the table, decoded images of positive size).
  Objects have identity: they live in a store indexed by references, the canvas holds the
  list of references in stacking order (index 0 is the back), and the React state
  \<^verbatim>\<open>selectedObject\<close> holds a reference.
\<close>

type_synonym ref = nat

datatype error = TypeError

text \<open>\<^verbatim>\<open>new fabric.Shadow({ color, blur })\<close>\<close>

record shadow_obj =
  sh_color :: string
  sh_blur :: rat

text \<open>
  A background colour is either a literal (\<^verbatim>\<open>"transparent"\<close>) or the template string
  \<^verbatim>\<open>rgba(${hexToRgb(hex)},${opacity})\<close>, kept as its two arguments: the hexadecimal
  colour of the form and the opacity. The text of the string is not needed below.
\<close>

datatype css_color = CssLit string | CssRgba string rat

text \<open>
  The properties of a canvas object that the page reads or writes. \<open>o_type\<close> is the
  object's \<^verbatim>\<open>type\<close> (\<^verbatim>\<open>"textbox"\<close> or \<^verbatim>\<open>"image"\<close>); \<open>o_width\<close> and \<open>o_height\<close> are the
  unscaled size: for an image the size of its element, for a text box the width and height
  the canvas library lays the text out to.
\<close>

record fobject =
  o_type :: string
  o_left :: rat
  o_top :: rat
  o_width :: rat
  o_height :: rat
  o_originX :: string
  o_originY :: string
  o_scaleX :: rat
  o_scaleY :: rat
  o_flipX :: bool
  o_flipY :: bool
  o_text :: string
  o_fontSize :: rat
  o_fontFamily :: string
  o_fontWeight :: string
  o_fontStyle :: string
  o_underline :: bool
  o_textAlign :: string
  o_fill :: string
  o_stroke :: "string option"
  o_strokeWidth :: rat
  o_backgroundColor :: css_color
  o_shadow :: "shadow_obj option"

text \<open>
  What the page takes from the canvas library is a parameter of the model: the class
  defaults for the properties a constructor call does not pass, one object of defaults for
  text boxes and one for images, and the text layout \<open>measure\<close>, which gives the width and
  height a text box is laid out to from its properties (it depends on the fonts of the
  browser). The library lays a text box out when it is constructed and whenever \<^verbatim>\<open>set\<close>
  changes one of its text layout properties.
\<close>

record lib =
  textbox_defaults :: fobject
  image_defaults :: fobject
  measure :: "fobject \<Rightarrow> rat \<times> rat"

definition initDimensions :: "lib \<Rightarrow> fobject \<Rightarrow> fobject" where
  "initDimensions L ob = ob\<lparr>o_width := fst (measure L ob), o_height := snd (measure L ob)\<rparr>"

text \<open>
  \<^verbatim>\<open>new fabric.Textbox(text, options)\<close>: the options override the defaults, then the box is
  laid out.
\<close>

definition new_Textbox :: "lib \<Rightarrow> string \<Rightarrow> (fobject \<Rightarrow> fobject) \<Rightarrow> fobject" where
  "new_Textbox L txt options =
     initDimensions L (options ((textbox_defaults L)\<lparr>o_type := ''textbox'', o_text := txt\<rparr>))"

definition new_Image :: "lib \<Rightarrow> nat \<Rightarrow> nat \<Rightarrow> fobject" where
  "new_Image L iw ih =
     (image_defaults L)\<lparr>o_type := ''image'', o_width := of_nat iw, o_height := of_nat ih\<rparr>"

text \<open>The content handed to the page (\<^verbatim>\<open>EditorPageProps.content\<close>).\<close>

record pos =
  pos_x :: rat
  pos_y :: rat

record captions =
  headline :: string
  tagline :: string
  cta :: string

record content =
  layout_json :: "(string \<rightharpoonup> pos) option"
  captions :: captions
  images_b64 :: "string list"

text \<open>
  An image element whose \<^verbatim>\<open>onload\<close> has not fired yet, with the page width and height its
  callback captured when the import started.
\<close>

record pending_image =
  p_src :: string
  p_width :: nat
  p_height :: nat

text \<open>
  The state of the page: the store, the canvas (its objects back to front, its active
  object, its dimensions and zoom), the container element, the image elements still
  decoding, and the React state variables under their own names.
\<close>

record editor =
  heap :: "ref \<Rightarrow> fobject option"
  nextRef :: ref
  objects :: "ref list"
  activeObject :: "ref option"
  canvasWidth :: nat
  canvasHeight :: nat
  canvasZoom :: rat
  container :: "(nat \<times> nat) option"
  pending :: "pending_image list"
  selectedObject :: "ref option"
  zoom :: rat
  fontColor :: string
  bgColor :: string
  bgOpacity :: rat
  fontSize :: rat
  fontFamily :: string
  textAlign :: string
  fontWeight :: string
  fontStyle :: string
  underline :: bool
  strokeColor :: string
  strokeWidth :: rat
  shadowColor :: string
  shadowBlur :: rat
  posterSize :: string
  orientation :: string

section \<open>Page geometry\<close>

definition BASE_SIZES :: "string \<rightharpoonup> nat \<times> nat" where
  "BASE_SIZES = map_of
     [(''Letter'', (816, 1056)),
      (''A4'', (794, 1123)),
      (''A5'', (559, 794)),
      (''A6'', (397, 559)),
      (''Postcard'', (400, 600))]"

text \<open>
  \<^verbatim>\<open>getCanvasDimensions\<close> reads \<^verbatim>\<open>posterSize\<close> and \<^verbatim>\<open>orientation\<close>. For a key outside the
  table \<^verbatim>\<open>base\<close> is undefined and \<^verbatim>\<open>base.w\<close> throws. The select of the page offers the
  table's own keys only; names a JavaScript object inherits are not keys of the model.
\<close>

definition getCanvasDimensions :: "string \<Rightarrow> string \<Rightarrow> error + nat \<times> nat" where
  "getCanvasDimensions size_key orient =
     (case BASE_SIZES size_key of
        None \<Rightarrow> Inl TypeError
      | Some (bw, bh) \<Rightarrow> Inr (if orient = ''portrait'' then (bw, bh) else (bh, bw)))"

section \<open>Viewport scaling\<close>

text \<open>
  \<^verbatim>\<open>resizeCanvas\<close>: returns at once when the container element is missing; otherwise sets
  the canvas dimensions and zoom and the React state \<^verbatim>\<open>zoom\<close>.
\<close>

definition resizeCanvas :: "editor \<Rightarrow> error + editor" where
  "resizeCanvas st =
     (case getCanvasDimensions (posterSize st) (orientation st) of
        Inl e \<Rightarrow> Inl e
      | Inr (w, h) \<Rightarrow>
          (case container st of
             None \<Rightarrow> Inr st
           | Some (cw, ch) \<Rightarrow>
               (let scale = min (of_nat cw / of_nat w) (of_nat ch / of_nat h)
                in Inr (st\<lparr>canvasWidth := w, canvasHeight := h,
                           canvasZoom := scale, zoom := scale\<rparr>))))"

section \<open>The canvas and the selection handlers\<close>

text \<open>
  \<^verbatim>\<open>handleSelect\<close> takes the event's \<^verbatim>\<open>selected\<close> list. \<^verbatim>\<open>a || b\<close> yields \<^verbatim>\<open>b\<close> when
  \<^verbatim>\<open>a\<close> is falsy: the number 0, the empty string, \<^verbatim>\<open>false\<close>.
\<close>

definition handleSelect :: "ref list \<Rightarrow> editor \<Rightarrow> editor" where
  "handleSelect selected st =
     (let obj = (case selected of [] \<Rightarrow> None | r # _ \<Rightarrow> Some r);
          st1 = st\<lparr>selectedObject := obj\<rparr>
      in case obj of
           None \<Rightarrow> st1
         | Some r \<Rightarrow>
             (case heap st r of
                None \<Rightarrow> st1
              | Some tb \<Rightarrow>
                  if o_type tb = ''textbox'' then
                    st1\<lparr>fontColor := o_fill tb,
                        fontSize := (if o_fontSize tb \<noteq> 0 then o_fontSize tb else 24),
                        fontFamily :=
                          (if o_fontFamily tb \<noteq> [] then o_fontFamily tb else ''Helvetica''),
                        textAlign := (if o_textAlign tb \<noteq> [] then o_textAlign tb else ''left''),
                        fontWeight :=
                          (if o_fontWeight tb \<noteq> [] then o_fontWeight tb else ''normal''),
                        fontStyle := (if o_fontStyle tb \<noteq> [] then o_fontStyle tb else ''normal''),
                        underline := (o_underline tb \<or> False)\<rparr>
                  else st1))"

definition handleClear :: "editor \<Rightarrow> editor" where
  "handleClear st = st\<lparr>selectedObject := None\<rparr>"

text \<open>
  The canvas operations the page calls; the canvas itself belongs to the fabric library and
  is modelled by what it does to its object list and its active object. The page subscribes
  \<^verbatim>\<open>handleSelect\<close> to \<^verbatim>\<open>selection:created\<close> and \<^verbatim>\<open>selection:updated\<close> and
  \<^verbatim>\<open>handleClear\<close> to \<^verbatim>\<open>selection:cleared\<close>. The canvas fires these events whenever its
  active object changes: \<^verbatim>\<open>setActiveObject\<close> on an object that is not yet active,
  \<^verbatim>\<open>discardActiveObject\<close> while an object is active, \<^verbatim>\<open>remove\<close> of the active object, and
  \<^verbatim>\<open>clear\<close>, which discards the active object first. So these operations run the handler.
  One object is selected at a time. \<open>canvas_add\<close> allocates the object constructed by the
  caller and appends it to the stacking order; \<^verbatim>\<open>sendObjectToBack\<close> and
  \<^verbatim>\<open>bringObjectToFront\<close> move an object to the start and to the end of it.
\<close>

definition canvas_add :: "fobject \<Rightarrow> editor \<Rightarrow> editor" where
  "canvas_add ob st =
     st\<lparr>heap := (heap st)(nextRef st \<mapsto> ob),
        objects := objects st @ [nextRef st],
        nextRef := Suc (nextRef st)\<rparr>"

definition canvas_setActiveObject :: "ref \<Rightarrow> editor \<Rightarrow> editor" where
  "canvas_setActiveObject r st =
     (if activeObject st = Some r then st
      else handleSelect [r] (st\<lparr>activeObject := Some r\<rparr>))"

definition canvas_discardActiveObject :: "editor \<Rightarrow> editor" where
  "canvas_discardActiveObject st =
     (case activeObject st of
        None \<Rightarrow> st
      | Some r \<Rightarrow> handleClear (st\<lparr>activeObject := None\<rparr>))"

definition canvas_remove :: "ref \<Rightarrow> editor \<Rightarrow> editor" where
  "canvas_remove r st =
     (if r \<in> set (objects st) then
        (let st1 = st\<lparr>objects := remove1 r (objects st)\<rparr>
         in if activeObject st1 = Some r then canvas_discardActiveObject st1 else st1)
      else st)"

definition canvas_clear :: "editor \<Rightarrow> editor" where
  "canvas_clear st = (canvas_discardActiveObject st)\<lparr>objects := []\<rparr>"

definition canvas_sendObjectToBack :: "ref \<Rightarrow> editor \<Rightarrow> editor" where
  "canvas_sendObjectToBack r st = st\<lparr>objects := r # remove1 r (objects st)\<rparr>"

definition canvas_bringObjectToFront :: "ref \<Rightarrow> editor \<Rightarrow> editor" where
  "canvas_bringObjectToFront r st = st\<lparr>objects := remove1 r (objects st) @ [r]\<rparr>"

section \<open>Loading the content\<close>

definition bindE :: "error + 'a \<Rightarrow> ('a \<Rightarrow> error + 'b) \<Rightarrow> error + 'b" where
  "bindE m f = (case m of Inl e \<Rightarrow> Inl e | Inr v \<Rightarrow> f v)"

definition startsWith :: "string \<Rightarrow> string \<Rightarrow> bool" where
  "startsWith s p = (take (length p) s = p)"

text \<open>
  The base image is base64 text, so \<^verbatim>\<open>trim\<close> is modelled on the ASCII white space; the
  other white space of Unicode does not occur in it. The URL is only kept with the pending
  element.
\<close>

definition is_space :: "char \<Rightarrow> bool" where
  "is_space c = (c \<in> set [CHR '' '', CHR 0x09, CHR 0x0A, CHR 0x0B, CHR 0x0C, CHR 0x0D])"

definition trim :: "string \<Rightarrow> string" where
  "trim s = rev (dropWhile is_space (rev (dropWhile is_space s)))"

definition image_url :: "string \<Rightarrow> string" where
  "image_url firstImg =
     (let imgUrl = trim firstImg
      in if \<not> startsWith imgUrl ''data:image'' then
           (if startsWith imgUrl ''iVBOR'' then ''data:image/png;base64,'' @ imgUrl
            else ''data:image/jpeg;base64,'' @ imgUrl)
         else imgUrl)"

text \<open>
  The \<^verbatim>\<open>onload\<close> callback of the base image, for the page size it captured and the decoded
  size of the image element.
\<close>

definition imgEl_onload :: "lib \<Rightarrow> nat \<Rightarrow> nat \<Rightarrow> nat \<Rightarrow> nat \<Rightarrow> editor \<Rightarrow> editor" where
  "imgEl_onload L width height iw ih st =
     (let fabImg = (new_Image L iw ih)\<lparr>o_originX := ''center'', o_originY := ''center''\<rparr>;
          scale = (if (of_nat iw :: rat) / of_nat ih > of_nat width / of_nat height
                   then of_nat width / of_nat iw else of_nat height / of_nat ih);
          fabImg = fabImg\<lparr>o_scaleX := scale, o_scaleY := scale\<rparr>;
          fabImg = fabImg\<lparr>o_left := of_nat width / 2\<rparr>;
          fabImg = fabImg\<lparr>o_top := of_nat height / 2\<rparr>;
          r = nextRef st
      in canvas_sendObjectToBack r (canvas_add fabImg st))"

definition default_layout :: "string \<rightharpoonup> pos" where
  "default_layout = map_of
     [(''headline'', \<lparr>pos_x = 10, pos_y = 15\<rparr>),
      (''tagline'', \<lparr>pos_x = 10, pos_y = 25\<rparr>),
      (''cta_text'', \<lparr>pos_x = 10, pos_y = 35\<rparr>)]"

text \<open>
  \<^verbatim>\<open>addText(text, pos, extra)\<close> of the load effect. \<^verbatim>\<open>pos\<close> is the layout's entry for the
  field; when the entry is missing it is undefined and \<^verbatim>\<open>pos.x\<close> throws. \<^verbatim>\<open>extra\<close> is spread
  last and overrides the fixed options.
\<close>

definition addText ::
  "lib \<Rightarrow> nat \<Rightarrow> nat \<Rightarrow> string \<Rightarrow> pos option \<Rightarrow> (fobject \<Rightarrow> fobject) \<Rightarrow> editor \<Rightarrow> error + editor"
where
  "addText L width height txt p extra st =
     (case p of
        None \<Rightarrow> Inl TypeError
      | Some hint \<Rightarrow>
          Inr (canvas_add
                 (new_Textbox L txt
                    (\<lambda>ob. extra (ob
                       \<lparr>o_left := (pos_x hint / 100) * of_nat width,
                        o_top := (pos_y hint / 100) * of_nat height,
                        o_width := of_nat width * (8 / 10),
                        o_fontSize := 24,
                        o_fill := ''#ffffff'',
                        o_backgroundColor := CssLit ''transparent''\<rparr>)))
                 st))"

definition loadContent :: "lib \<Rightarrow> content \<Rightarrow> editor \<Rightarrow> error + editor" where
  "loadContent L c st =
     (case getCanvasDimensions (posterSize st) (orientation st) of
        Inl e \<Rightarrow> Inl e
      | Inr (width, height) \<Rightarrow>
          (let st1 = canvas_clear st;
               st2 = (case images_b64 c of
                        [] \<Rightarrow> st1
                      | firstImg # _ \<Rightarrow>
                          if firstImg \<noteq> [] then
                            st1\<lparr>pending := pending st1 @
                                  [\<lparr>p_src = image_url firstImg,
                                    p_width = width, p_height = height\<rparr>]\<rparr>
                          else st1);
               layout = (case layout_json c of None \<Rightarrow> default_layout | Some l \<Rightarrow> l)
           in bindE (addText L width height (headline (captions c)) (layout ''headline'')
                       (\<lambda>ob. ob\<lparr>o_fontWeight := ''bold'', o_fontSize := 36\<rparr>) st2)
                (\<lambda>st3.
              bindE (addText L width height (tagline (captions c)) (layout ''tagline'')
                       (\<lambda>ob. ob\<lparr>o_fontStyle := ''italic'', o_fontSize := 24\<rparr>) st3)
                (\<lambda>st4.
              addText L width height (cta (captions c)) (layout ''cta_text'')
                (\<lambda>ob. ob\<lparr>o_fill := ''#00bfff'', o_fontSize := 20\<rparr>) st4))))"

section \<open>Editing operations\<close>

text \<open>
  \<^verbatim>\<open>updateSelected(prop, val)\<close>: the property name together with its value is one
  constructor per name the page passes. \<^verbatim>\<open>set(prop, val)\<close> of a text box assigns the
  property and, for a text layout property (the text, the font size, weight and style, the
  alignment), lays the box out again.
\<close>

datatype prop_val =
    P_text string
  | P_fontWeight string
  | P_fontStyle string
  | P_underline bool
  | P_fill string
  | P_stroke string
  | P_strokeWidth rat
  | P_shadow "shadow_obj option"
  | P_backgroundColor css_color
  | P_fontSize rat
  | P_textAlign string

fun set_prop :: "lib \<Rightarrow> prop_val \<Rightarrow> fobject \<Rightarrow> fobject" where
  "set_prop L (P_text v) ob = initDimensions L (ob\<lparr>o_text := v\<rparr>)"
| "set_prop L (P_fontWeight v) ob = initDimensions L (ob\<lparr>o_fontWeight := v\<rparr>)"
| "set_prop L (P_fontStyle v) ob = initDimensions L (ob\<lparr>o_fontStyle := v\<rparr>)"
| "set_prop L (P_underline v) ob = ob\<lparr>o_underline := v\<rparr>"
| "set_prop L (P_fill v) ob = ob\<lparr>o_fill := v\<rparr>"
| "set_prop L (P_stroke v) ob = ob\<lparr>o_stroke := Some v\<rparr>"
| "set_prop L (P_strokeWidth v) ob = ob\<lparr>o_strokeWidth := v\<rparr>"
| "set_prop L (P_shadow v) ob = ob\<lparr>o_shadow := v\<rparr>"
| "set_prop L (P_backgroundColor v) ob = ob\<lparr>o_backgroundColor := v\<rparr>"
| "set_prop L (P_fontSize v) ob = initDimensions L (ob\<lparr>o_fontSize := v\<rparr>)"
| "set_prop L (P_textAlign v) ob = initDimensions L (ob\<lparr>o_textAlign := v\<rparr>)"

definition updateSelected :: "lib \<Rightarrow> prop_val \<Rightarrow> editor \<Rightarrow> editor" where
  "updateSelected L pv st =
     (case selectedObject st of
        None \<Rightarrow> st
      | Some r \<Rightarrow>
          (case heap st r of
             None \<Rightarrow> st
           | Some ob \<Rightarrow>
               if o_type ob = ''textbox'' then st\<lparr>heap := (heap st)(r \<mapsto> set_prop L pv ob)\<rparr>
               else st))"

definition bringFront :: "editor \<Rightarrow> editor" where
  "bringFront st =
     (case selectedObject st of None \<Rightarrow> st | Some r \<Rightarrow> canvas_bringObjectToFront r st)"

definition sendBack :: "editor \<Rightarrow> editor" where
  "sendBack st =
     (case selectedObject st of None \<Rightarrow> st | Some r \<Rightarrow> canvas_sendObjectToBack r st)"

definition flipHorizontal :: "editor \<Rightarrow> editor" where
  "flipHorizontal st =
     (case selectedObject st of
        None \<Rightarrow> st
      | Some r \<Rightarrow>
          (case heap st r of
             None \<Rightarrow> st
           | Some ob \<Rightarrow> st\<lparr>heap := (heap st)(r \<mapsto> ob\<lparr>o_flipX := \<not> o_flipX ob\<rparr>)\<rparr>))"

definition flipVertical :: "editor \<Rightarrow> editor" where
  "flipVertical st =
     (case selectedObject st of
        None \<Rightarrow> st
      | Some r \<Rightarrow>
          (case heap st r of
             None \<Rightarrow> st
           | Some ob \<Rightarrow> st\<lparr>heap := (heap st)(r \<mapsto> ob\<lparr>o_flipY := \<not> o_flipY ob\<rparr>)\<rparr>))"

definition handleAddText :: "lib \<Rightarrow> editor \<Rightarrow> editor" where
  "handleAddText L st =
     (let t = new_Textbox L ''New text''
                (\<lambda>ob. ob
                  \<lparr>o_left := 100,
                   o_top := 100,
                   o_width := 300,
                   o_fontSize := fontSize st,
                   o_fontFamily := fontFamily st,
                   o_fontWeight := fontWeight st,
                   o_fontStyle := fontStyle st,
                   o_underline := underline st,
                   o_fill := fontColor st,
                   o_stroke := Some (strokeColor st),
                   o_strokeWidth := strokeWidth st,
                   o_backgroundColor := CssRgba (bgColor st) (bgOpacity st),
                   o_shadow := (if shadowBlur st \<noteq> 0
                                then Some \<lparr>sh_color = shadowColor st, sh_blur = shadowBlur st\<rparr>
                                else None)\<rparr>);
          r = nextRef st
      in canvas_setActiveObject r (canvas_add t st))"

text \<open>The \<^verbatim>\<open>onload\<close> callback of an uploaded image (\<^verbatim>\<open>handleUploadImage\<close>).\<close>

definition img_onload :: "lib \<Rightarrow> nat \<Rightarrow> nat \<Rightarrow> editor \<Rightarrow> editor" where
  "img_onload L iw ih st =
     (let fabImg = (new_Image L iw ih)
                     \<lparr>o_left := 50, o_top := 50, o_scaleX := 1 / 2, o_scaleY := 1 / 2\<rparr>;
          r = nextRef st
      in canvas_setActiveObject r (canvas_add fabImg st))"

definition handleDelete :: "editor \<Rightarrow> editor" where
  "handleDelete st =
     (case selectedObject st of
        None \<Rightarrow> st
      | Some r \<Rightarrow> (canvas_remove r st)\<lparr>selectedObject := None\<rparr>)"

section \<open>The style controls\<close>

text \<open>
  The \<^verbatim>\<open>onClick\<close> and \<^verbatim>\<open>onChange\<close> handlers of the sidebar, one per control, in the order
  of the page.
\<close>

definition change_text :: "lib \<Rightarrow> string \<Rightarrow> editor \<Rightarrow> editor" where
  "change_text L v st = updateSelected L (P_text v) st"

definition click_bold :: "lib \<Rightarrow> editor \<Rightarrow> editor" where
  "click_bold L st =
     (let val = (if fontWeight st = ''bold'' then ''normal'' else ''bold'')
      in updateSelected L (P_fontWeight val) (st\<lparr>fontWeight := val\<rparr>))"

definition click_italic :: "lib \<Rightarrow> editor \<Rightarrow> editor" where
  "click_italic L st =
     (let val = (if fontStyle st = ''italic'' then ''normal'' else ''italic'')
      in updateSelected L (P_fontStyle val) (st\<lparr>fontStyle := val\<rparr>))"

definition click_underline :: "lib \<Rightarrow> editor \<Rightarrow> editor" where
  "click_underline L st =
     (let val = (\<not> underline st)
      in updateSelected L (P_underline val) (st\<lparr>underline := val\<rparr>))"

definition change_fontColor :: "lib \<Rightarrow> string \<Rightarrow> editor \<Rightarrow> editor" where
  "change_fontColor L v st = updateSelected L (P_fill v) (st\<lparr>fontColor := v\<rparr>)"

definition change_strokeColor :: "lib \<Rightarrow> string \<Rightarrow> editor \<Rightarrow> editor" where
  "change_strokeColor L v st = updateSelected L (P_stroke v) (st\<lparr>strokeColor := v\<rparr>)"

definition change_strokeWidth :: "lib \<Rightarrow> rat \<Rightarrow> editor \<Rightarrow> editor" where
  "change_strokeWidth L val st =
     updateSelected L (P_strokeWidth val) (st\<lparr>strokeWidth := val\<rparr>)"

definition change_shadowBlur :: "lib \<Rightarrow> rat \<Rightarrow> editor \<Rightarrow> editor" where
  "change_shadowBlur L val st =
     updateSelected L
       (P_shadow (if val \<noteq> 0 then Some \<lparr>sh_color = shadowColor st, sh_blur = val\<rparr> else None))
       (st\<lparr>shadowBlur := val\<rparr>)"

definition change_shadowColor :: "lib \<Rightarrow> string \<Rightarrow> editor \<Rightarrow> editor" where
  "change_shadowColor L v st =
     updateSelected L
       (P_shadow (if shadowBlur st \<noteq> 0 then Some \<lparr>sh_color = v, sh_blur = shadowBlur st\<rparr>
                  else None))
       (st\<lparr>shadowColor := v\<rparr>)"

definition change_bgColor :: "lib \<Rightarrow> string \<Rightarrow> editor \<Rightarrow> editor" where
  "change_bgColor L v st =
     updateSelected L (P_backgroundColor (CssRgba v (bgOpacity st))) (st\<lparr>bgColor := v\<rparr>)"

definition change_bgOpacity :: "lib \<Rightarrow> rat \<Rightarrow> editor \<Rightarrow> editor" where
  "change_bgOpacity L val st =
     updateSelected L (P_backgroundColor (CssRgba (bgColor st) val)) (st\<lparr>bgOpacity := val\<rparr>)"

definition change_fontSize :: "lib \<Rightarrow> rat \<Rightarrow> editor \<Rightarrow> editor" where
  "change_fontSize L s st = updateSelected L (P_fontSize s) (st\<lparr>fontSize := s\<rparr>)"

definition change_textAlign :: "lib \<Rightarrow> string \<Rightarrow> editor \<Rightarrow> editor" where
  "change_textAlign L v st = updateSelected L (P_textAlign v) (st\<lparr>textAlign := v\<rparr>)"

section \<open>The page as a transition system\<close>

text \<open>
  The page starts with the React defaults and an empty canvas of the initial page size; on
  mount the resize effect and then the load effect run. An effect that throws ends the
  session.
\<close>

definition initial_state :: "(nat \<times> nat) option \<Rightarrow> editor" where
  "initial_state cont =
     \<lparr>heap = Map.empty, nextRef = 0, objects = [], activeObject = None,
      canvasWidth = 794, canvasHeight = 1123, canvasZoom = 1,
      container = cont, pending = [],
      selectedObject = None, zoom = 1,
      fontColor = ''#ffffff'', bgColor = ''#000000'', bgOpacity = 0,
      fontSize = 24, fontFamily = ''Helvetica'', textAlign = ''left'',
      fontWeight = ''normal'', fontStyle = ''normal'', underline = False,
      strokeColor = ''#000000'', strokeWidth = 0,
      shadowColor = ''#000000'', shadowBlur = 0,
      posterSize = ''A4'', orientation = ''portrait''\<rparr>"

definition mount :: "lib \<Rightarrow> content \<Rightarrow> (nat \<times> nat) option \<Rightarrow> error + editor" where
  "mount L c cont = bindE (resizeCanvas (initial_state cont)) (loadContent L c)"

text \<open>
  A change of \<^verbatim>\<open>posterSize\<close> or \<^verbatim>\<open>orientation\<close> re-runs the two effects that depend on it, in
  the order of the page: the resize effect, then the load effect.
\<close>

definition setPosterSize :: "lib \<Rightarrow> content \<Rightarrow> string \<Rightarrow> editor \<Rightarrow> error + editor" where
  "setPosterSize L c k st =
     (if k = posterSize st then Inr st
      else bindE (resizeCanvas (st\<lparr>posterSize := k\<rparr>)) (loadContent L c))"

definition setOrientation :: "lib \<Rightarrow> content \<Rightarrow> string \<Rightarrow> editor \<Rightarrow> error + editor" where
  "setOrientation L c v st =
     (if v = orientation st then Inr st
      else bindE (resizeCanvas (st\<lparr>orientation := v\<rparr>)) (loadContent L c))"

text \<open>
  The events of a session: a resize of the window with the container's new client size, the
  two selects of the page, the completion of a pending base-image decode (its index among
  the pending elements and the decoded size), a click on an object or on the empty canvas,
  the buttons, the completion of an upload, and the style controls. The content is fixed
  for the session: the wizard mounts a new page whenever it changes. Moving, scaling or
  rotating an object with the pointer and editing a text in place change only geometry and
  text and are left out.
\<close>

datatype event =
    Resize nat nat
  | SetPosterSize string
  | SetOrientation string
  | ImgElOnload nat nat nat
  | SelectObject ref
  | ClickEmpty
  | AddText
  | ImgOnload nat nat
  | Delete
  | BringFront
  | SendBack
  | FlipH
  | FlipV
  | EditText string
  | ClickBold
  | ClickItalic
  | ClickUnderline
  | FontColor string
  | StrokeColor string
  | StrokeWidth rat
  | ShadowBlur rat
  | ShadowColor string
  | BgColor string
  | BgOpacity rat
  | FontSize rat
  | TextAlign string

definition textbox_selected :: "editor \<Rightarrow> bool" where
  "textbox_selected st =
     (case selectedObject st of
        None \<Rightarrow> False
      | Some r \<Rightarrow> (case heap st r of None \<Rightarrow> False | Some ob \<Rightarrow> o_type ob = ''textbox''))"

text \<open>
  What the page offers: the selects list the table's keys and the two orientations, a click
  selects an object of the canvas, a decode completes for a pending element with a positive
  size, and the style controls are rendered only while a text box is selected, with the
  ranges of their inputs.
\<close>

fun enabled :: "event \<Rightarrow> editor \<Rightarrow> bool" where
  "enabled (SetPosterSize k) st = (BASE_SIZES k \<noteq> None)"
| "enabled (SetOrientation v) st = (v = ''portrait'' \<or> v = ''landscape'')"
| "enabled (ImgElOnload i iw ih) st = (i < length (pending st) \<and> 0 < iw \<and> 0 < ih)"
| "enabled (SelectObject r) st = (r \<in> set (objects st))"
| "enabled (ImgOnload iw ih) st = (0 < iw \<and> 0 < ih)"
| "enabled (EditText v) st = textbox_selected st"
| "enabled ClickBold st = textbox_selected st"
| "enabled ClickItalic st = textbox_selected st"
| "enabled ClickUnderline st = textbox_selected st"
| "enabled (FontColor v) st = textbox_selected st"
| "enabled (StrokeColor v) st = textbox_selected st"
| "enabled (StrokeWidth v) st = (textbox_selected st \<and> 0 \<le> v \<and> v \<le> 5)"
| "enabled (ShadowBlur v) st = (textbox_selected st \<and> 0 \<le> v \<and> v \<le> 20)"
| "enabled (ShadowColor v) st = textbox_selected st"
| "enabled (BgColor v) st = textbox_selected st"
| "enabled (BgOpacity v) st = (textbox_selected st \<and> 0 \<le> v \<and> v \<le> 1)"
| "enabled (FontSize v) st = (textbox_selected st \<and> 8 \<le> v \<and> v \<le> 80)"
| "enabled (TextAlign v) st =
     (textbox_selected st \<and> (v = ''left'' \<or> v = ''center'' \<or> v = ''right''))"
| "enabled _ st = True"

fun step :: "lib \<Rightarrow> content \<Rightarrow> event \<Rightarrow> editor \<Rightarrow> error + editor" where
  "step L c (Resize cw ch) st = resizeCanvas (st\<lparr>container := Some (cw, ch)\<rparr>)"
| "step L c (SetPosterSize k) st = setPosterSize L c k st"
| "step L c (SetOrientation v) st = setOrientation L c v st"
| "step L c (ImgElOnload i iw ih) st =
     (if i < length (pending st) then
        (let p = pending st ! i
         in Inr (imgEl_onload L (p_width p) (p_height p) iw ih
                   (st\<lparr>pending := take i (pending st) @ drop (Suc i) (pending st)\<rparr>)))
      else Inr st)"
| "step L c (SelectObject r) st = Inr (canvas_setActiveObject r st)"
| "step L c ClickEmpty st = Inr (canvas_discardActiveObject st)"
| "step L c AddText st = Inr (handleAddText L st)"
| "step L c (ImgOnload iw ih) st = Inr (img_onload L iw ih st)"
| "step L c Delete st = Inr (handleDelete st)"
| "step L c BringFront st = Inr (bringFront st)"
| "step L c SendBack st = Inr (sendBack st)"
| "step L c FlipH st = Inr (flipHorizontal st)"
| "step L c FlipV st = Inr (flipVertical st)"
| "step L c (EditText v) st = Inr (change_text L v st)"
| "step L c ClickBold st = Inr (click_bold L st)"
| "step L c ClickItalic st = Inr (click_italic L st)"
| "step L c ClickUnderline st = Inr (click_underline L st)"
| "step L c (FontColor v) st = Inr (change_fontColor L v st)"
| "step L c (StrokeColor v) st = Inr (change_strokeColor L v st)"
| "step L c (StrokeWidth v) st = Inr (change_strokeWidth L v st)"
| "step L c (ShadowBlur v) st = Inr (change_shadowBlur L v st)"
| "step L c (ShadowColor v) st = Inr (change_shadowColor L v st)"
| "step L c (BgColor v) st = Inr (change_bgColor L v st)"
| "step L c (BgOpacity v) st = Inr (change_bgOpacity L v st)"
| "step L c (FontSize v) st = Inr (change_fontSize L v st)"
| "step L c (TextAlign v) st = Inr (change_textAlign L v st)"

text \<open>
  Running a list of events from a state: \<open>None\<close> when an event is not offered in the state
  it meets or an effect throws.
\<close>

fun run :: "lib \<Rightarrow> content \<Rightarrow> event list \<Rightarrow> editor \<Rightarrow> editor option" where
  "run L c [] st = Some st"
| "run L c (e # es) st =
     (if enabled e st
      then (case step L c e st of Inl err \<Rightarrow> None | Inr st' \<Rightarrow> run L c es st')
      else None)"

inductive reachable :: "lib \<Rightarrow> content \<Rightarrow> editor \<Rightarrow> bool" for L c where
  reach_mount: "mount L c cont = Inr st \<Longrightarrow> reachable L c st"
| reach_step:
    "reachable L c st \<Longrightarrow> enabled e st \<Longrightarrow> step L c e st = Inr st' \<Longrightarrow> reachable L c st'"

section \<open>Concrete inputs\<close>

text \<open>
  A library instance and contents used to evaluate the model. The defaults follow the
  canvas library's class defaults for text and image objects, and the layout is that of a
  single line of text that fits the width of its box: the width stays and the height is
  1.13 times the font size. The theorems below hold for every instance.
\<close>

definition sample_lib :: lib where
  "sample_lib =
     \<lparr>textbox_defaults =
        \<lparr>o_type = ''textbox'', o_left = 0, o_top = 0, o_width = 20, o_height = 0,
         o_originX = ''left'', o_originY = ''top'', o_scaleX = 1, o_scaleY = 1,
         o_flipX = False, o_flipY = False, o_text = [], o_fontSize = 40,
         o_fontFamily = ''Times New Roman'', o_fontWeight = ''normal'',
         o_fontStyle = ''normal'', o_underline = False, o_textAlign = ''left'',
         o_fill = ''rgb(0,0,0)'', o_stroke = None, o_strokeWidth = 1,
         o_backgroundColor = CssLit [], o_shadow = None\<rparr>,
      image_defaults =
        \<lparr>o_type = ''image'', o_left = 0, o_top = 0, o_width = 0, o_height = 0,
         o_originX = ''left'', o_originY = ''top'', o_scaleX = 1, o_scaleY = 1,
         o_flipX = False, o_flipY = False, o_text = [], o_fontSize = 0,
         o_fontFamily = [], o_fontWeight = [],
         o_fontStyle = [], o_underline = False, o_textAlign = [],
         o_fill = ''rgb(0,0,0)'', o_stroke = None, o_strokeWidth = 0,
         o_backgroundColor = CssLit [], o_shadow = None\<rparr>,
      measure = (\<lambda>ob. (o_width ob, o_fontSize ob * (113 / 100)))\<rparr>"

definition sample_captions :: captions where
  "sample_captions = \<lparr>headline = ''H'', tagline = ''T'', cta = ''C''\<rparr>"

definition content_plain :: content where
  "content_plain = \<lparr>layout_json = None, captions = sample_captions, images_b64 = []\<rparr>"

definition content_image :: content where
  "content_image =
     \<lparr>layout_json = None, captions = sample_captions, images_b64 = [''iVBORw0KGgo='']\<rparr>"

definition content_hints :: content where
  "content_hints =
     \<lparr>layout_json = Some (map_of
        [(''headline'', \<lparr>pos_x = 50, pos_y = 20\<rparr>),
         (''tagline'', \<lparr>pos_x = 25, pos_y = 40\<rparr>),
         (''cta_text'', \<lparr>pos_x = 30, pos_y = 80\<rparr>)]),
      captions = sample_captions, images_b64 = []\<rparr>"

definition content_partial :: content where
  "content_partial =
     \<lparr>layout_json = Some (map_of [(''headline'', \<lparr>pos_x = 10, pos_y = 15\<rparr>)]),
      captions = sample_captions, images_b64 = []\<rparr>"

section \<open>Invariants of a session\<close>

text \<open>
  Well-formedness of a state: the React selection is the canvas's active object, the
  active object is on the canvas, every object of the canvas is allocated, and no object is
  on the canvas twice.
\<close>

definition wf :: "editor \<Rightarrow> bool" where
  "wf st =
     (selectedObject st = activeObject st
      \<and> (\<forall>r. activeObject st = Some r \<longrightarrow> r \<in> set (objects st))
      \<and> (\<forall>r \<in> set (objects st). r < nextRef st \<and> heap st r \<noteq> None)
      \<and> distinct (objects st))"

text \<open>
  The seven fields of the style form that \<^verbatim>\<open>handleSelect\<close> copies, as it copies them.
\<close>

definition form_mirrors :: "editor \<Rightarrow> fobject \<Rightarrow> bool" where
  "form_mirrors st tb =
     (fontColor st = o_fill tb
      \<and> fontSize st = (if o_fontSize tb \<noteq> 0 then o_fontSize tb else 24)
      \<and> fontFamily st = (if o_fontFamily tb \<noteq> [] then o_fontFamily tb else ''Helvetica'')
      \<and> textAlign st = (if o_textAlign tb \<noteq> [] then o_textAlign tb else ''left'')
      \<and> fontWeight st = (if o_fontWeight tb \<noteq> [] then o_fontWeight tb else ''normal'')
      \<and> fontStyle st = (if o_fontStyle tb \<noteq> [] then o_fontStyle tb else ''normal'')
      \<and> underline st = o_underline tb)"

definition mirror_inv :: "editor \<Rightarrow> bool" where
  "mirror_inv st =
     (\<forall>r tb. selectedObject st = Some r \<and> heap st r = Some tb \<and> o_type tb = ''textbox''
        \<longrightarrow> form_mirrors st tb)"

text \<open>A text box has no shadow of blur 0.\<close>

definition shadow_ok :: "fobject \<Rightarrow> bool" where
  "shadow_ok ob =
     (o_type ob = ''textbox'' \<longrightarrow>
        (case o_shadow ob of None \<Rightarrow> True | Some sh \<Rightarrow> sh_blur sh \<noteq> 0))"

definition shadow_inv :: "editor \<Rightarrow> bool" where
  "shadow_inv st = (\<forall>r ob. heap st r = Some ob \<longrightarrow> shadow_ok ob)"

text \<open>A session: mounting the page, then a list of events.\<close>

definition session ::
  "lib \<Rightarrow> content \<Rightarrow> (nat \<times> nat) option \<Rightarrow> event list \<Rightarrow> editor option" where
  "session L c cont es = (case mount L c cont of Inl err \<Rightarrow> None | Inr st \<Rightarrow> run L c es st)"

text \<open>The object a reference denotes in a state.\<close>

definition object_at :: "ref \<Rightarrow> editor \<Rightarrow> fobject option" where
  "object_at r st = heap st r"

section \<open>Vocabulary of the properties\<close>

text \<open>The object that is selected, when there is one.\<close>

definition selected_box :: "editor \<Rightarrow> fobject option" where
  "selected_box st = (case selectedObject st of None \<Rightarrow> None | Some r \<Rightarrow> heap st r)"

text \<open>
  The property name \<^verbatim>\<open>updateSelected\<close> is called with, whether it is a text layout
  property, that an object holds the value passed for it, and that two objects agree on
  every property but the named ones.
\<close>

fun prop_name :: "prop_val \<Rightarrow> string" where
  "prop_name (P_text v) = ''text''"
| "prop_name (P_fontWeight v) = ''fontWeight''"
| "prop_name (P_fontStyle v) = ''fontStyle''"
| "prop_name (P_underline v) = ''underline''"
| "prop_name (P_fill v) = ''fill''"
| "prop_name (P_stroke v) = ''stroke''"
| "prop_name (P_strokeWidth v) = ''strokeWidth''"
| "prop_name (P_shadow v) = ''shadow''"
| "prop_name (P_backgroundColor v) = ''backgroundColor''"
| "prop_name (P_fontSize v) = ''fontSize''"
| "prop_name (P_textAlign v) = ''textAlign''"

fun prop_holds :: "prop_val \<Rightarrow> fobject \<Rightarrow> bool" where
  "prop_holds (P_text v) ob = (o_text ob = v)"
| "prop_holds (P_fontWeight v) ob = (o_fontWeight ob = v)"
| "prop_holds (P_fontStyle v) ob = (o_fontStyle ob = v)"
| "prop_holds (P_underline v) ob = (o_underline ob = v)"
| "prop_holds (P_fill v) ob = (o_fill ob = v)"
| "prop_holds (P_stroke v) ob = (o_stroke ob = Some v)"
| "prop_holds (P_strokeWidth v) ob = (o_strokeWidth ob = v)"
| "prop_holds (P_shadow v) ob = (o_shadow ob = v)"
| "prop_holds (P_backgroundColor v) ob = (o_backgroundColor ob = v)"
| "prop_holds (P_fontSize v) ob = (o_fontSize ob = v)"
| "prop_holds (P_textAlign v) ob = (o_textAlign ob = v)"

fun layout_prop :: "prop_val \<Rightarrow> bool" where
  "layout_prop (P_text v) = True"
| "layout_prop (P_fontWeight v) = True"
| "layout_prop (P_fontStyle v) = True"
| "layout_prop (P_fontSize v) = True"
| "layout_prop (P_textAlign v) = True"
| "layout_prop _ = False"

definition unchanged_except :: "string list \<Rightarrow> fobject \<Rightarrow> fobject \<Rightarrow> bool" where
  "unchanged_except names a b =
     ((''type'' \<notin> set names \<longrightarrow> o_type a = o_type b)
      \<and> (''left'' \<notin> set names \<longrightarrow> o_left a = o_left b)
      \<and> (''top'' \<notin> set names \<longrightarrow> o_top a = o_top b)
      \<and> (''width'' \<notin> set names \<longrightarrow> o_width a = o_width b)
      \<and> (''height'' \<notin> set names \<longrightarrow> o_height a = o_height b)
      \<and> (''originX'' \<notin> set names \<longrightarrow> o_originX a = o_originX b)
      \<and> (''originY'' \<notin> set names \<longrightarrow> o_originY a = o_originY b)
      \<and> (''scaleX'' \<notin> set names \<longrightarrow> o_scaleX a = o_scaleX b)
      \<and> (''scaleY'' \<notin> set names \<longrightarrow> o_scaleY a = o_scaleY b)
      \<and> (''flipX'' \<notin> set names \<longrightarrow> o_flipX a = o_flipX b)
      \<and> (''flipY'' \<notin> set names \<longrightarrow> o_flipY a = o_flipY b)
      \<and> (''text'' \<notin> set names \<longrightarrow> o_text a = o_text b)
      \<and> (''fontSize'' \<notin> set names \<longrightarrow> o_fontSize a = o_fontSize b)
      \<and> (''fontFamily'' \<notin> set names \<longrightarrow> o_fontFamily a = o_fontFamily b)
      \<and> (''fontWeight'' \<notin> set names \<longrightarrow> o_fontWeight a = o_fontWeight b)
      \<and> (''fontStyle'' \<notin> set names \<longrightarrow> o_fontStyle a = o_fontStyle b)
      \<and> (''underline'' \<notin> set names \<longrightarrow> o_underline a = o_underline b)
      \<and> (''textAlign'' \<notin> set names \<longrightarrow> o_textAlign a = o_textAlign b)
      \<and> (''fill'' \<notin> set names \<longrightarrow> o_fill a = o_fill b)
      \<and> (''stroke'' \<notin> set names \<longrightarrow> o_stroke a = o_stroke b)
      \<and> (''strokeWidth'' \<notin> set names \<longrightarrow> o_strokeWidth a = o_strokeWidth b)
      \<and> (''backgroundColor'' \<notin> set names \<longrightarrow> o_backgroundColor a = o_backgroundColor b)
      \<and> (''shadow'' \<notin> set names \<longrightarrow> o_shadow a = o_shadow b))"

section \<open>Page geometry and viewport scaling: properties\<close>

lemma BASE_SIZES_pos: "BASE_SIZES k = Some (bw, bh) \<Longrightarrow> 0 < bw \<and> 0 < bh"
  by (auto simp: BASE_SIZES_def split: if_splits)

lemma getCanvasDimensions_pos:
  "getCanvasDimensions k v = Inr (w, h) \<Longrightarrow> 0 < w \<and> 0 < h"
  by (auto simp: getCanvasDimensions_def split: option.splits if_splits dest: BASE_SIZES_pos)

text \<open>
  C6. The table has exactly the five keys Letter, A4, A5, A6 and Postcard, and for each of
  them \<^verbatim>\<open>getCanvasDimensions\<close> returns the base pair of the table in portrait and the
  swapped pair in landscape.
\<close>

theorem getCanvasDimensions_table:
  "dom BASE_SIZES = {''Letter'', ''A4'', ''A5'', ''A6'', ''Postcard''}
   \<and> getCanvasDimensions ''Letter'' ''portrait'' = Inr (816, 1056)
   \<and> getCanvasDimensions ''Letter'' ''landscape'' = Inr (1056, 816)
   \<and> getCanvasDimensions ''A4'' ''portrait'' = Inr (794, 1123)
   \<and> getCanvasDimensions ''A4'' ''landscape'' = Inr (1123, 794)
   \<and> getCanvasDimensions ''A5'' ''portrait'' = Inr (559, 794)
   \<and> getCanvasDimensions ''A5'' ''landscape'' = Inr (794, 559)
   \<and> getCanvasDimensions ''A6'' ''portrait'' = Inr (397, 559)
   \<and> getCanvasDimensions ''A6'' ''landscape'' = Inr (559, 397)
   \<and> getCanvasDimensions ''Postcard'' ''portrait'' = Inr (400, 600)
   \<and> getCanvasDimensions ''Postcard'' ''landscape'' = Inr (600, 400)"
  by (simp add: getCanvasDimensions_def BASE_SIZES_def dom_def) (auto split: if_splits)

lemma scale_bounds:
  fixes cw ch pw ph :: nat
  assumes "0 < pw" "0 < ph"
  defines "s \<equiv> min ((of_nat cw :: rat) / of_nat pw) (of_nat ch / of_nat ph)"
  shows "0 \<le> s" "s \<le> of_nat cw / of_nat pw" "s \<le> of_nat ch / of_nat ph"
        "0 < cw \<and> 0 < ch \<longrightarrow> 0 < s" "cw = 0 \<or> ch = 0 \<longrightarrow> s = 0"
proof -
  have a: "(0::rat) \<le> of_nat cw / of_nat pw" and b: "(0::rat) \<le> of_nat ch / of_nat ph"
    by simp_all
  show "0 \<le> s" using a b by (simp add: s_def)
  show "s \<le> of_nat cw / of_nat pw" by (simp add: s_def)
  show "s \<le> of_nat ch / of_nat ph" by (simp add: s_def)
  show "0 < cw \<and> 0 < ch \<longrightarrow> 0 < s" using assms by (simp add: s_def)
  show "cw = 0 \<or> ch = 0 \<longrightarrow> s = 0" using a b by (auto simp: s_def)
qed

text \<open>
  C5, as the page computes it. With a page size of the table and a container of client size
  \<open>cw \<times> ch\<close>, \<^verbatim>\<open>resizeCanvas\<close> stores \<open>min (cw / pw) (ch / ph)\<close> as the zoom of the canvas and
  of the React state. The value is never negative, never exceeds either of the two ratios,
  and is positive when both container dimensions are positive. When the container has zero
  width or height the value stored is 0: the update is not deferred. The bounds are on the
  ratios the page computes; the products of the page size with the stored value are
  rounded by the page's arithmetic and are not bounded here.
\<close>

theorem resizeCanvas_scale:
  assumes dims: "getCanvasDimensions (posterSize st) (orientation st) = Inr (pw, ph)"
      and cont: "container st = Some (cw, ch)"
  shows "\<exists>st'. resizeCanvas st = Inr st'
           \<and> zoom st' = min (of_nat cw / of_nat pw) (of_nat ch / of_nat ph)
           \<and> canvasZoom st' = zoom st'
           \<and> canvasWidth st' = pw \<and> canvasHeight st' = ph
           \<and> 0 \<le> zoom st'
           \<and> zoom st' \<le> of_nat cw / of_nat pw
           \<and> zoom st' \<le> of_nat ch / of_nat ph
           \<and> (0 < cw \<and> 0 < ch \<longrightarrow> 0 < zoom st')
           \<and> (cw = 0 \<or> ch = 0 \<longrightarrow> zoom st' = 0)"
proof -
  from dims have pos: "0 < pw" "0 < ph" by (auto dest: getCanvasDimensions_pos)
  let ?s = "min ((of_nat cw :: rat) / of_nat pw) (of_nat ch / of_nat ph)"
  have r: "resizeCanvas st = Inr (st\<lparr>canvasWidth := pw, canvasHeight := ph,
                                      canvasZoom := ?s, zoom := ?s\<rparr>)"
    using dims cont by (simp add: resizeCanvas_def Let_def)
  show ?thesis
    unfolding r using scale_bounds[OF pos, of cw ch] by simp
qed

theorem resizeCanvas_scale_witness:
  "\<exists>st'. resizeCanvas (initial_state (Some (1000, 800))) = Inr st'
      \<and> zoom st' = 800 / 1123 \<and> canvasZoom st' = 800 / 1123
      \<and> zoom st' \<le> 1000 / 794 \<and> zoom st' \<le> 800 / 1123
      \<and> 0 < zoom st'"
proof -
  have d: "getCanvasDimensions (posterSize (initial_state (Some (1000, 800))))
             (orientation (initial_state (Some (1000, 800)))) = Inr (794, 1123)"
    by (simp add: initial_state_def getCanvasDimensions_def BASE_SIZES_def)
  have c: "container (initial_state (Some (1000, 800))) = Some (1000, 800)"
    by (simp add: initial_state_def)
  from resizeCanvas_scale[OF d c] show ?thesis by auto
qed

text \<open>
  The claim that a zero-size container leaves the viewport state alone fails: on the freshly
  mounted A4 page with a container of width 0 the zoom goes from 1 to 0.
\<close>

theorem resizeCanvas_zero_container:
  "resizeCanvas (initial_state (Some (0, 500)))
     = Inr ((initial_state (Some (0, 500)))\<lparr>canvasWidth := 794, canvasHeight := 1123,
              canvasZoom := 0, zoom := 0\<rparr>)
   \<and> zoom (initial_state (Some (0, 500))) = 1"
  by (simp add: resizeCanvas_def getCanvasDimensions_def BASE_SIZES_def initial_state_def)

section \<open>Loading the content: properties\<close>

lemma remove1_append_fresh: "r \<notin> set xs \<Longrightarrow> remove1 r (xs @ [r]) = xs"
  by (simp add: remove1_append)

lemma imgEl_onload_result:
  assumes fresh: "nextRef st \<notin> set (objects st)"
  shows "imgEl_onload L width height iw ih st =
     st\<lparr>heap := (heap st)(nextRef st \<mapsto>
            (new_Image L iw ih)
              \<lparr>o_originX := ''center'', o_originY := ''center'',
               o_scaleX := (if (of_nat iw :: rat) / of_nat ih > of_nat width / of_nat height
                            then of_nat width / of_nat iw else of_nat height / of_nat ih),
               o_scaleY := (if (of_nat iw :: rat) / of_nat ih > of_nat width / of_nat height
                            then of_nat width / of_nat iw else of_nat height / of_nat ih),
               o_left := of_nat width / 2, o_top := of_nat height / 2\<rparr>),
        objects := nextRef st # objects st,
        nextRef := Suc (nextRef st)\<rparr>"
  using fresh
  by (simp add: imgEl_onload_def Let_def canvas_add_def canvas_sendObjectToBack_def
      remove1_append_fresh)

text \<open>
  C1, as the page computes it. The callback works with the page width and height captured
  when the import started. When the decoded base image is strictly wider in aspect than
  those, the callback scales it in both directions by \<open>pageWidth / imageWidth\<close>, which is
  strictly less than \<open>pageHeight / imageHeight\<close>: the image is fitted to the captured width
  and is not scaled up to cover the height. It is placed with a centre origin at half the
  captured width and height and becomes the back-most object of the canvas.
\<close>

theorem imgEl_onload_wider:
  assumes pos: "0 < iw" "0 < ih" "0 < width" "0 < height"
      and wider: "(of_nat iw :: rat) / of_nat ih > of_nat width / of_nat height"
      and fresh: "nextRef st \<notin> set (objects st)"
  shows "\<exists>img. heap (imgEl_onload L width height iw ih st) (nextRef st) = Some img
           \<and> objects (imgEl_onload L width height iw ih st) = nextRef st # objects st
           \<and> o_type img = ''image''
           \<and> o_scaleX img = of_nat width / of_nat iw
           \<and> o_scaleY img = of_nat width / of_nat iw
           \<and> o_scaleX img < of_nat height / of_nat ih
           \<and> o_originX img = ''center'' \<and> o_originY img = ''center''
           \<and> o_left img = of_nat width / 2 \<and> o_top img = of_nat height / 2"
proof -
  have lt: "(of_nat width :: rat) * of_nat ih < of_nat iw * of_nat height"
    using wider pos by (simp add: divide_simps mult.commute)
  have less: "(of_nat width :: rat) / of_nat iw < of_nat height / of_nat ih"
    using lt pos by (simp add: divide_simps mult.commute)
  show ?thesis
    unfolding imgEl_onload_result[OF fresh]
    using wider less pos by (simp add: new_Image_def)
qed

theorem imgEl_onload_wider_witness:
  "\<exists>img. heap (imgEl_onload sample_lib 794 1123 200 100 (initial_state None)) 0 = Some img
      \<and> objects (imgEl_onload sample_lib 794 1123 200 100 (initial_state None)) = [0]
      \<and> o_scaleX img = 794 / 200 \<and> o_scaleY img = 794 / 200
      \<and> o_scaleX img < 1123 / 100
      \<and> o_left img = 794 / 2 \<and> o_top img = 1123 / 2"
proof -
  have pre: "0 < (200::nat)" "0 < (100::nat)" "0 < (794::nat)" "0 < (1123::nat)"
    "(of_nat 200 :: rat) / of_nat 100 > of_nat 794 / of_nat 1123"
    "nextRef (initial_state None) \<notin> set (objects (initial_state None))"
    by (simp_all add: initial_state_def)
  have n: "nextRef (initial_state None) = 0" "objects (initial_state None) = []"
    by (simp_all add: initial_state_def)
  from imgEl_onload_wider[OF pre, of sample_lib] obtain img where
    "heap (imgEl_onload sample_lib 794 1123 200 100 (initial_state None)) 0 = Some img
      \<and> objects (imgEl_onload sample_lib 794 1123 200 100 (initial_state None)) = [0]
      \<and> o_scaleX img = 794 / 200 \<and> o_scaleY img = 794 / 200
      \<and> o_scaleX img < 1123 / 100
      \<and> o_left img = 794 / 2 \<and> o_top img = 1123 / 2"
    unfolding n by auto
  then show ?thesis by blast
qed

text \<open>
  The claim's scale fails on the A4 portrait page with an image of 200 by 100 pixels: the
  image is wider than the page, its scale is \<open>794 / 200\<close> and not \<open>1123 / 100\<close>, and its
  scaled height \<open>397\<close> leaves the page uncovered.
\<close>

theorem imgEl_onload_not_cover:
  "map_option o_scaleX (heap (imgEl_onload sample_lib 794 1123 200 100 (initial_state None)) 0)
     = Some (794 / 200)
   \<and> (794 :: rat) / 200 \<noteq> 1123 / 100
   \<and> (200 :: rat) / 100 > 794 / 1123
   \<and> map_option o_height (heap (imgEl_onload sample_lib 794 1123 200 100 (initial_state None)) 0)
     = Some 100
   \<and> (100 :: rat) * (794 / 200) < 1123"
  by (simp add: imgEl_onload_def Let_def canvas_add_def canvas_sendObjectToBack_def
      new_Image_def initial_state_def sample_lib_def)

text \<open>
  C2 at a layout that lacks the tagline and call-to-action hints: the load effect throws
  instead of falling back to the default positions.
\<close>

theorem loadContent_partial_layout:
  "mount sample_lib content_partial (Some (1000, 800)) = Inl TypeError
   \<and> loadContent sample_lib content_partial (initial_state (Some (1000, 800))) = Inl TypeError"
  by (simp add: mount_def resizeCanvas_def loadContent_def getCanvasDimensions_def
      BASE_SIZES_def initial_state_def content_partial_def Let_def bindE_def addText_def)

section \<open>Editing operations: properties\<close>

text \<open>Laying a text box out changes its width and height only.\<close>

lemma initDimensions_sel [simp]:
  "o_type (initDimensions L ob) = o_type ob"
  "o_left (initDimensions L ob) = o_left ob"
  "o_top (initDimensions L ob) = o_top ob"
  "o_originX (initDimensions L ob) = o_originX ob"
  "o_originY (initDimensions L ob) = o_originY ob"
  "o_scaleX (initDimensions L ob) = o_scaleX ob"
  "o_scaleY (initDimensions L ob) = o_scaleY ob"
  "o_flipX (initDimensions L ob) = o_flipX ob"
  "o_flipY (initDimensions L ob) = o_flipY ob"
  "o_text (initDimensions L ob) = o_text ob"
  "o_fontSize (initDimensions L ob) = o_fontSize ob"
  "o_fontFamily (initDimensions L ob) = o_fontFamily ob"
  "o_fontWeight (initDimensions L ob) = o_fontWeight ob"
  "o_fontStyle (initDimensions L ob) = o_fontStyle ob"
  "o_underline (initDimensions L ob) = o_underline ob"
  "o_textAlign (initDimensions L ob) = o_textAlign ob"
  "o_fill (initDimensions L ob) = o_fill ob"
  "o_stroke (initDimensions L ob) = o_stroke ob"
  "o_strokeWidth (initDimensions L ob) = o_strokeWidth ob"
  "o_backgroundColor (initDimensions L ob) = o_backgroundColor ob"
  "o_shadow (initDimensions L ob) = o_shadow ob"
  by (simp_all add: initDimensions_def)

text \<open>What the selection handlers and \<^verbatim>\<open>updateSelected\<close> leave alone.\<close>

lemma handleSelect_frame:
  "heap (handleSelect sel st) = heap st"
  "objects (handleSelect sel st) = objects st"
  "nextRef (handleSelect sel st) = nextRef st"
  "activeObject (handleSelect sel st) = activeObject st"
  "pending (handleSelect sel st) = pending st"
  "posterSize (handleSelect sel st) = posterSize st"
  "orientation (handleSelect sel st) = orientation st"
  "container (handleSelect sel st) = container st"
  "strokeWidth (handleSelect sel st) = strokeWidth st"
  "strokeColor (handleSelect sel st) = strokeColor st"
  "shadowBlur (handleSelect sel st) = shadowBlur st"
  "shadowColor (handleSelect sel st) = shadowColor st"
  "bgColor (handleSelect sel st) = bgColor st"
  "bgOpacity (handleSelect sel st) = bgOpacity st"
  "selectedObject (handleSelect sel st) = (case sel of [] \<Rightarrow> None | r # _ \<Rightarrow> Some r)"
  by (simp_all add: handleSelect_def Let_def split: list.splits option.splits)

lemma canvas_setActiveObject_frame:
  "heap (canvas_setActiveObject r st) = heap st"
  "objects (canvas_setActiveObject r st) = objects st"
  "nextRef (canvas_setActiveObject r st) = nextRef st"
  "activeObject (canvas_setActiveObject r st) = Some r"
  "pending (canvas_setActiveObject r st) = pending st"
  "posterSize (canvas_setActiveObject r st) = posterSize st"
  "orientation (canvas_setActiveObject r st) = orientation st"
  "container (canvas_setActiveObject r st) = container st"
  "strokeWidth (canvas_setActiveObject r st) = strokeWidth st"
  "strokeColor (canvas_setActiveObject r st) = strokeColor st"
  "shadowBlur (canvas_setActiveObject r st) = shadowBlur st"
  "shadowColor (canvas_setActiveObject r st) = shadowColor st"
  "bgColor (canvas_setActiveObject r st) = bgColor st"
  "bgOpacity (canvas_setActiveObject r st) = bgOpacity st"
  by (simp_all add: canvas_setActiveObject_def handleSelect_frame)

lemma updateSelected_frame:
  "objects (updateSelected L pv st) = objects st"
  "nextRef (updateSelected L pv st) = nextRef st"
  "activeObject (updateSelected L pv st) = activeObject st"
  "selectedObject (updateSelected L pv st) = selectedObject st"
  "pending (updateSelected L pv st) = pending st"
  "posterSize (updateSelected L pv st) = posterSize st"
  "orientation (updateSelected L pv st) = orientation st"
  "container (updateSelected L pv st) = container st"
  "fontColor (updateSelected L pv st) = fontColor st"
  "fontSize (updateSelected L pv st) = fontSize st"
  "fontFamily (updateSelected L pv st) = fontFamily st"
  "textAlign (updateSelected L pv st) = textAlign st"
  "fontWeight (updateSelected L pv st) = fontWeight st"
  "fontStyle (updateSelected L pv st) = fontStyle st"
  "underline (updateSelected L pv st) = underline st"
  "strokeWidth (updateSelected L pv st) = strokeWidth st"
  "strokeColor (updateSelected L pv st) = strokeColor st"
  "shadowBlur (updateSelected L pv st) = shadowBlur st"
  "shadowColor (updateSelected L pv st) = shadowColor st"
  "bgColor (updateSelected L pv st) = bgColor st"
  "bgOpacity (updateSelected L pv st) = bgOpacity st"
  by (simp_all add: updateSelected_def split: option.splits)

lemma updateSelected_textbox:
  "selectedObject st = Some r \<Longrightarrow> heap st r = Some ob \<Longrightarrow> o_type ob = ''textbox'' \<Longrightarrow>
   updateSelected L pv st = st\<lparr>heap := (heap st)(r \<mapsto> set_prop L pv ob)\<rparr>"
  by (simp add: updateSelected_def)

lemma updateSelected_other:
  "selectedObject st = Some r \<Longrightarrow> heap st r = Some ob \<Longrightarrow> o_type ob \<noteq> ''textbox'' \<Longrightarrow>
   updateSelected L pv st = st"
  by (simp add: updateSelected_def)

text \<open>
  C9. \<^verbatim>\<open>flipHorizontal\<close> toggles the \<^verbatim>\<open>flipX\<close> flag of the selected object and
  \<^verbatim>\<open>flipVertical\<close> its \<^verbatim>\<open>flipY\<close> flag, changing nothing else of the object or of the state;
  applying either of them twice gives back the state it started from.
\<close>

theorem flip_twice:
  "flipHorizontal (flipHorizontal st) = st
   \<and> flipVertical (flipVertical st) = st
   \<and> (selectedObject st = Some r \<and> heap st r = Some ob \<longrightarrow>
        flipHorizontal st = st\<lparr>heap := (heap st)(r \<mapsto> ob\<lparr>o_flipX := \<not> o_flipX ob\<rparr>)\<rparr>
        \<and> flipVertical st = st\<lparr>heap := (heap st)(r \<mapsto> ob\<lparr>o_flipY := \<not> o_flipY ob\<rparr>)\<rparr>)"
proof -
  have triv: "\<And>h (k::ref) (v::fobject). h k = Some v \<Longrightarrow> h(k \<mapsto> v) = h"
    by (rule map_upd_triv)
  have a: "flipHorizontal (flipHorizontal st) = st"
    by (auto simp: flipHorizontal_def triv split: option.splits)
  have b: "flipVertical (flipVertical st) = st"
    by (auto simp: flipVertical_def triv split: option.splits)
  show ?thesis using a b by (simp add: flipHorizontal_def flipVertical_def)
qed

section \<open>Invariants of a session: proofs\<close>

lemma resizeCanvas_result:
  assumes "resizeCanvas st = Inr st'"
  shows "\<exists>w h z. st' = st \<or> st' = st\<lparr>canvasWidth := w, canvasHeight := h, canvasZoom := z, zoom := z\<rparr>"
proof (cases "getCanvasDimensions (posterSize st) (orientation st)")
  case (Inl e)
  with assms show ?thesis by (simp add: resizeCanvas_def)
next
  case (Inr d)
  obtain w h where d: "d = (w, h)" by (cases d)
  show ?thesis
  proof (cases "container st")
    case None
    with assms Inr d show ?thesis by (simp add: resizeCanvas_def)
  next
    case (Some cc)
    obtain cw ch where cc: "cc = (cw, ch)" by (cases cc)
    from assms Inr d Some cc show ?thesis
      by (simp add: resizeCanvas_def Let_def) blast
  qed
qed

lemma wf_eqI:
  assumes "selectedObject a = selectedObject b" "activeObject a = activeObject b"
    "objects a = objects b" "nextRef a = nextRef b" "heap a = heap b"
  shows "wf a = wf b"
  by (simp add: wf_def assms)

lemma form_mirrors_eqI:
  assumes "fontColor a = fontColor b" "fontSize a = fontSize b" "fontFamily a = fontFamily b"
    "textAlign a = textAlign b" "fontWeight a = fontWeight b" "fontStyle a = fontStyle b"
    "underline a = underline b"
  shows "form_mirrors a tb = form_mirrors b tb"
  unfolding form_mirrors_def assms ..

lemma mirror_inv_eqI:
  assumes "selectedObject a = selectedObject b" "heap a = heap b"
    "fontColor a = fontColor b" "fontSize a = fontSize b" "fontFamily a = fontFamily b"
    "textAlign a = textAlign b" "fontWeight a = fontWeight b" "fontStyle a = fontStyle b"
    "underline a = underline b"
  shows "mirror_inv a = mirror_inv b"
  unfolding mirror_inv_def form_mirrors_def assms ..

lemma wf_resizeCanvas: "resizeCanvas st = Inr st' \<Longrightarrow> wf st \<Longrightarrow> wf st'"
  by (drule resizeCanvas_result) (auto simp: wf_def)

lemma mirror_resizeCanvas:
  assumes "resizeCanvas st = Inr st'" "mirror_inv st"
  shows "mirror_inv st'"
proof -
  from resizeCanvas_result[OF assms(1)] obtain w h z where
    "st' = st \<or> st' = st\<lparr>canvasWidth := w, canvasHeight := h, canvasZoom := z, zoom := z\<rparr>"
    by blast
  moreover have "mirror_inv (st\<lparr>canvasWidth := w, canvasHeight := h, canvasZoom := z, zoom := z\<rparr>)
       = mirror_inv st"
    by (rule mirror_inv_eqI) simp_all
  ultimately show ?thesis using assms(2) by auto
qed


lemma mirror_inv_None: "selectedObject st = None \<Longrightarrow> mirror_inv st"
  by (simp add: mirror_inv_def)

lemma form_mirrors_obj_eqI:
  assumes "o_fill a = o_fill b" "o_fontSize a = o_fontSize b" "o_fontFamily a = o_fontFamily b"
    "o_textAlign a = o_textAlign b" "o_fontWeight a = o_fontWeight b"
    "o_fontStyle a = o_fontStyle b" "o_underline a = o_underline b"
  shows "form_mirrors st a = form_mirrors st b"
  unfolding form_mirrors_def assms ..

lemma mirror_inv_same_sel:
  assumes "mirror_inv a" "selectedObject b = selectedObject a"
    "\<And>r. selectedObject a = Some r \<Longrightarrow> heap b r = heap a r"
    "fontColor b = fontColor a" "fontSize b = fontSize a" "fontFamily b = fontFamily a"
    "textAlign b = textAlign a" "fontWeight b = fontWeight a" "fontStyle b = fontStyle a"
    "underline b = underline a"
  shows "mirror_inv b"
  unfolding mirror_inv_def
proof (intro allI impI, elim conjE)
  fix r tb
  assume s: "selectedObject b = Some r" and h: "heap b r = Some tb" and t: "o_type tb = ''textbox''"
  from s assms(2) have s': "selectedObject a = Some r" by simp
  with assms(3) h have "heap a r = Some tb" by simp
  with assms(1) s' t have "form_mirrors a tb" by (auto simp: mirror_inv_def)
  also have "form_mirrors a tb = form_mirrors b tb"
    by (rule form_mirrors_eqI) (simp_all add: assms)
  finally show "form_mirrors b tb" .
qed

lemma wf_selected_allocated:
  "wf st \<Longrightarrow> selectedObject st = Some r \<Longrightarrow> r \<in> set (objects st) \<and> r < nextRef st \<and> heap st r \<noteq> None"
  by (auto simp: wf_def)

lemma bindE_Inr: "bindE m f = Inr y \<Longrightarrow> \<exists>x. m = Inr x \<and> f x = Inr y"
  by (cases m) (simp_all add: bindE_def)

lemma canvas_discardActiveObject_result:
  "wf st \<Longrightarrow> canvas_discardActiveObject st = st\<lparr>activeObject := None, selectedObject := None\<rparr>"
  by (cases "activeObject st")
     (simp_all add: canvas_discardActiveObject_def handleClear_def wf_def)

lemma canvas_clear_result:
  "wf st \<Longrightarrow> canvas_clear st = st\<lparr>activeObject := None, selectedObject := None, objects := []\<rparr>"
  by (simp add: canvas_clear_def canvas_discardActiveObject_result)

lemma addText_result:
  "addText L w h txt p extra st = Inr st' \<Longrightarrow>
   \<exists>ob. st' = st\<lparr>heap := (heap st)(nextRef st \<mapsto> ob), objects := objects st @ [nextRef st],
                 nextRef := Suc (nextRef st)\<rparr>"
  by (cases p) (auto simp: addText_def canvas_add_def)

lemma loadContent_unfold:
  assumes d: "getCanvasDimensions (posterSize st) (orientation st) = Inr (w, h)"
  shows "loadContent L c st =
      bindE (addText L w h (headline (captions c))
               ((case layout_json c of None \<Rightarrow> default_layout | Some l \<Rightarrow> l) ''headline'')
               (\<lambda>ob. ob\<lparr>o_fontWeight := ''bold'', o_fontSize := 36\<rparr>)
               (case images_b64 c of
                  [] \<Rightarrow> canvas_clear st
                | firstImg # _ \<Rightarrow>
                    if firstImg \<noteq> [] then
                      (canvas_clear st)\<lparr>pending := pending (canvas_clear st) @
                         [\<lparr>p_src = image_url firstImg, p_width = w, p_height = h\<rparr>]\<rparr>
                    else canvas_clear st))
        (\<lambda>st3. bindE (addText L w h (tagline (captions c))
               ((case layout_json c of None \<Rightarrow> default_layout | Some l \<Rightarrow> l) ''tagline'')
               (\<lambda>ob. ob\<lparr>o_fontStyle := ''italic'', o_fontSize := 24\<rparr>) st3)
        (\<lambda>st4. addText L w h (cta (captions c))
               ((case layout_json c of None \<Rightarrow> default_layout | Some l \<Rightarrow> l) ''cta_text'')
               (\<lambda>ob. ob\<lparr>o_fill := ''#00bfff'', o_fontSize := 20\<rparr>) st4))"
  unfolding loadContent_def d by (simp add: Let_def)

lemma loadContent_result:
  assumes "loadContent L c st = Inr st'" "wf st"
  shows "\<exists>a b d ps. st' = st\<lparr>activeObject := None, selectedObject := None, pending := ps,
            heap := (heap st)(nextRef st \<mapsto> a, Suc (nextRef st) \<mapsto> b, Suc (Suc (nextRef st)) \<mapsto> d),
            objects := [nextRef st, Suc (nextRef st), Suc (Suc (nextRef st))],
            nextRef := Suc (Suc (Suc (nextRef st)))\<rparr>
          \<and> (\<exists>qs. ps = pending st @ qs)"
proof -
  from assms(1) obtain dm where "getCanvasDimensions (posterSize st) (orientation st) = Inr dm"
    by (cases "getCanvasDimensions (posterSize st) (orientation st)")
       (simp_all add: loadContent_def)
  then obtain w h where d: "getCanvasDimensions (posterSize st) (orientation st) = Inr (w, h)"
    by (cases dm) simp
  define st2 where "st2 = (case images_b64 c of
                        [] \<Rightarrow> canvas_clear st
                      | firstImg # _ \<Rightarrow>
                          if firstImg \<noteq> [] then
                            (canvas_clear st)\<lparr>pending := pending (canvas_clear st) @
                                  [\<lparr>p_src = image_url firstImg,
                                    p_width = w, p_height = h\<rparr>]\<rparr>
                          else canvas_clear st)"
  have "\<exists>qs. st2 = st\<lparr>activeObject := None, selectedObject := None, objects := [],
                       pending := pending st @ qs\<rparr>"
  proof (cases "images_b64 c")
    case Nil
    then show ?thesis
      unfolding st2_def canvas_clear_result[OF assms(2)] by (intro exI[of _ "[]"]) simp
  next
    case (Cons f fs)
    show ?thesis
    proof (cases "f = []")
      case True
      with Cons show ?thesis
        unfolding st2_def canvas_clear_result[OF assms(2)] by (intro exI[of _ "[]"]) simp
    next
      case False
      with Cons show ?thesis
        unfolding st2_def canvas_clear_result[OF assms(2)]
        by (intro exI[of _ "[\<lparr>p_src = image_url f, p_width = w, p_height = h\<rparr>]"]) simp
    qed
  qed
  then obtain qs where st2': "st2 = st\<lparr>activeObject := None, selectedObject := None,
       objects := [], pending := pending st @ qs\<rparr>" by blast
  note lc = loadContent_unfold[OF d, of L c, folded st2_def]
  from assms(1)[unfolded lc] obtain st3 where
    s3: "addText L w h (headline (captions c))
               ((case layout_json c of None \<Rightarrow> default_layout | Some l \<Rightarrow> l) ''headline'')
               (\<lambda>ob. ob\<lparr>o_fontWeight := ''bold'', o_fontSize := 36\<rparr>) st2 = Inr st3"
    and r3: "bindE (addText L w h (tagline (captions c))
               ((case layout_json c of None \<Rightarrow> default_layout | Some l \<Rightarrow> l) ''tagline'')
               (\<lambda>ob. ob\<lparr>o_fontStyle := ''italic'', o_fontSize := 24\<rparr>) st3)
        (\<lambda>st4. addText L w h (cta (captions c))
               ((case layout_json c of None \<Rightarrow> default_layout | Some l \<Rightarrow> l) ''cta_text'')
               (\<lambda>ob. ob\<lparr>o_fill := ''#00bfff'', o_fontSize := 20\<rparr>) st4) = Inr st'"
    by (blast dest: bindE_Inr)
  from r3 obtain st4 where
    s4: "addText L w h (tagline (captions c))
               ((case layout_json c of None \<Rightarrow> default_layout | Some l \<Rightarrow> l) ''tagline'')
               (\<lambda>ob. ob\<lparr>o_fontStyle := ''italic'', o_fontSize := 24\<rparr>) st3 = Inr st4"
    and s5: "addText L w h (cta (captions c))
               ((case layout_json c of None \<Rightarrow> default_layout | Some l \<Rightarrow> l) ''cta_text'')
               (\<lambda>ob. ob\<lparr>o_fill := ''#00bfff'', o_fontSize := 20\<rparr>) st4 = Inr st'"
    by (blast dest: bindE_Inr)
  from addText_result[OF s3] obtain a where a: "st3 = st2\<lparr>heap := (heap st2)(nextRef st2 \<mapsto> a),
      objects := objects st2 @ [nextRef st2], nextRef := Suc (nextRef st2)\<rparr>" by blast
  from addText_result[OF s4] obtain b where b: "st4 = st3\<lparr>heap := (heap st3)(nextRef st3 \<mapsto> b),
      objects := objects st3 @ [nextRef st3], nextRef := Suc (nextRef st3)\<rparr>" by blast
  from addText_result[OF s5] obtain d where d: "st' = st4\<lparr>heap := (heap st4)(nextRef st4 \<mapsto> d),
      objects := objects st4 @ [nextRef st4], nextRef := Suc (nextRef st4)\<rparr>" by blast
  show ?thesis
    apply (rule exI[of _ a], rule exI[of _ b], rule exI[of _ d], rule exI[of _ "pending st @ qs"])
    by (simp add: a b d st2')
qed

lemma wf_loadContent:
  assumes "loadContent L c st = Inr st'" "wf st"
  shows "wf st'" "selectedObject st' = None"
proof -
  from loadContent_result[OF assms] obtain a b d ps where
    r: "st' = st\<lparr>activeObject := None, selectedObject := None, pending := ps,
            heap := (heap st)(nextRef st \<mapsto> a, Suc (nextRef st) \<mapsto> b, Suc (Suc (nextRef st)) \<mapsto> d),
            objects := [nextRef st, Suc (nextRef st), Suc (Suc (nextRef st))],
            nextRef := Suc (Suc (Suc (nextRef st)))\<rparr>" by blast
  show "wf st'" unfolding r by (simp add: wf_def)
  show "selectedObject st' = None" unfolding r by simp
qed

lemma wf_initial: "wf (initial_state cont)"
  by (simp add: wf_def initial_state_def)

lemma mount_inv:
  assumes "mount L c cont = Inr st"
  shows "wf st \<and> mirror_inv st"
proof -
  from assms obtain st1 where r: "resizeCanvas (initial_state cont) = Inr st1"
    and l: "loadContent L c st1 = Inr st"
    unfolding mount_def by (blast dest: bindE_Inr)
  from wf_resizeCanvas[OF r wf_initial] have "wf st1" .
  from wf_loadContent[OF l this] show ?thesis by (simp add: mirror_inv_None)
qed

lemma wf_canvas_add: "wf st \<Longrightarrow> wf (canvas_add ob st)"
  by (auto simp: wf_def canvas_add_def less_Suc_eq)

lemma mirror_canvas_add:
  assumes "wf st" "mirror_inv st"
  shows "mirror_inv (canvas_add ob st)"
proof (rule mirror_inv_same_sel[OF assms(2)])
  fix r assume "selectedObject st = Some r"
  with assms(1) have "r < nextRef st" by (auto dest: wf_selected_allocated)
  then show "heap (canvas_add ob st) r = heap st r" by (simp add: canvas_add_def)
qed (simp_all add: canvas_add_def)

lemma handleSelect_mirrors:
  "heap st r = Some tb \<Longrightarrow> o_type tb = ''textbox'' \<Longrightarrow> form_mirrors (handleSelect [r] st) tb"
  by (simp add: handleSelect_def form_mirrors_def)

lemma mirror_handleSelect: "mirror_inv (handleSelect [r] st)"
  unfolding mirror_inv_def
  by (auto simp: handleSelect_frame intro: handleSelect_mirrors)

lemma wf_handleSelect:
  "activeObject st = Some r \<Longrightarrow> r \<in> set (objects st) \<Longrightarrow>
   (\<forall>r \<in> set (objects st). r < nextRef st \<and> heap st r \<noteq> None) \<Longrightarrow> distinct (objects st) \<Longrightarrow>
   wf (handleSelect [r] st)"
  by (simp add: wf_def handleSelect_frame)

lemma wf_setActiveObject:
  "wf st \<Longrightarrow> r \<in> set (objects st) \<Longrightarrow> wf (canvas_setActiveObject r st)"
proof (cases "activeObject st = Some r")
  case True
  assume "wf st"
  with True show ?thesis by (simp add: canvas_setActiveObject_def)
next
  case False
  assume w: "wf st" and m: "r \<in> set (objects st)"
  have "wf (handleSelect [r] (st\<lparr>activeObject := Some r\<rparr>))"
    by (rule wf_handleSelect) (use w m in \<open>simp_all add: wf_def\<close>)
  with False show ?thesis by (simp add: canvas_setActiveObject_def)
qed

lemma mirror_setActiveObject:
  "mirror_inv st \<Longrightarrow> mirror_inv (canvas_setActiveObject r st)"
  by (simp add: canvas_setActiveObject_def mirror_handleSelect)

lemma wf_discardActiveObject: "wf st \<Longrightarrow> wf (canvas_discardActiveObject st)"
  by (simp add: canvas_discardActiveObject_result) (simp add: wf_def)

lemma mirror_discardActiveObject: "wf st \<Longrightarrow> mirror_inv (canvas_discardActiveObject st)"
  by (simp add: canvas_discardActiveObject_result mirror_inv_None)

lemma handleAddText_unfold:
  "\<exists>t. handleAddText L st = canvas_setActiveObject (nextRef st) (canvas_add t st)"
  unfolding handleAddText_def Let_def by (rule exI) (rule refl)

lemma nextRef_in_canvas_add: "nextRef st \<in> set (objects (canvas_add ob st))"
  by (simp add: canvas_add_def)

lemma inv_handleAddText:
  assumes "wf st" "mirror_inv st"
  shows "wf (handleAddText L st) \<and> mirror_inv (handleAddText L st)"
proof -
  obtain t where u: "handleAddText L st = canvas_setActiveObject (nextRef st) (canvas_add t st)"
    using handleAddText_unfold by blast
  show ?thesis unfolding u
    by (intro conjI wf_setActiveObject wf_canvas_add mirror_setActiveObject mirror_canvas_add
        assms nextRef_in_canvas_add)
qed

lemma inv_img_onload:
  assumes "wf st" "mirror_inv st"
  shows "wf (img_onload L iw ih st) \<and> mirror_inv (img_onload L iw ih st)"
  unfolding img_onload_def Let_def
  by (intro conjI wf_setActiveObject wf_canvas_add mirror_setActiveObject mirror_canvas_add
        assms nextRef_in_canvas_add)

lemma wf_fresh: "wf st \<Longrightarrow> nextRef st \<notin> set (objects st)"
  by (auto simp: wf_def)

lemma inv_imgEl_onload:
  assumes "wf st" "mirror_inv st"
  shows "wf (imgEl_onload L w h iw ih (st\<lparr>pending := ps\<rparr>))
         \<and> mirror_inv (imgEl_onload L w h iw ih (st\<lparr>pending := ps\<rparr>))"
proof -
  have w: "wf (st\<lparr>pending := ps\<rparr>)" using assms(1) by (simp add: wf_def)
  have f: "nextRef (st\<lparr>pending := ps\<rparr>) \<notin> set (objects (st\<lparr>pending := ps\<rparr>))"
    using wf_fresh[OF w] .
  have "wf (imgEl_onload L w h iw ih (st\<lparr>pending := ps\<rparr>))"
    unfolding imgEl_onload_result[OF f] using assms(1) by (auto simp: wf_def less_Suc_eq)
  moreover have "mirror_inv (imgEl_onload L w h iw ih (st\<lparr>pending := ps\<rparr>))"
  proof (rule mirror_inv_same_sel[OF assms(2)])
    fix r assume "selectedObject st = Some r"
    with assms(1) have "r < nextRef st" by (auto dest: wf_selected_allocated)
    then show "heap (imgEl_onload L w h iw ih (st\<lparr>pending := ps\<rparr>)) r = heap st r"
      unfolding imgEl_onload_result[OF f] by simp
  qed (simp_all add: imgEl_onload_result[OF f])
  ultimately show ?thesis ..
qed

lemma canvas_remove_selected:
  assumes "wf st" "selectedObject st = Some r"
  shows "canvas_remove r st =
           st\<lparr>objects := remove1 r (objects st), activeObject := None, selectedObject := None\<rparr>"
proof -
  from assms have a: "activeObject st = Some r" and m: "r \<in> set (objects st)"
    by (auto simp: wf_def)
  show ?thesis
    by (simp add: canvas_remove_def Let_def a m canvas_discardActiveObject_def handleClear_def)
qed

lemma handleDelete_result:
  assumes "wf st" "selectedObject st = Some r"
  shows "handleDelete st =
           st\<lparr>objects := remove1 r (objects st), activeObject := None, selectedObject := None\<rparr>"
  by (simp add: handleDelete_def assms(2) canvas_remove_selected[OF assms])

lemma inv_handleDelete:
  assumes "wf st"
  shows "wf (handleDelete st) \<and> mirror_inv (handleDelete st)"
proof (cases "selectedObject st")
  case None
  then show ?thesis using assms by (simp add: handleDelete_def mirror_inv_None)
next
  case (Some r)
  show ?thesis unfolding handleDelete_result[OF assms Some]
    using assms by (auto simp: wf_def mirror_inv_None)
qed

lemma inv_reorder:
  assumes "wf st" "mirror_inv st"
  shows "wf (bringFront st) \<and> mirror_inv (bringFront st)"
    and "wf (sendBack st) \<and> mirror_inv (sendBack st)"
proof -
  have m: "\<And>xs. mirror_inv (st\<lparr>objects := xs\<rparr>)"
    by (rule mirror_inv_same_sel[OF assms(2)]) simp_all
  have w: "\<And>r. selectedObject st = Some r \<Longrightarrow>
      wf (st\<lparr>objects := remove1 r (objects st) @ [r]\<rparr>) \<and> wf (st\<lparr>objects := r # remove1 r (objects st)\<rparr>)"
    using assms(1) by (auto simp: wf_def dest: notin_set_remove1)
  show "wf (bringFront st) \<and> mirror_inv (bringFront st)"
    using assms(1) w m by (cases "selectedObject st")
      (simp_all add: bringFront_def canvas_bringObjectToFront_def assms(2))
  show "wf (sendBack st) \<and> mirror_inv (sendBack st)"
    using assms(1) w m by (cases "selectedObject st")
      (simp_all add: sendBack_def canvas_sendObjectToBack_def assms(2))
qed

lemma wf_heap_upd:
  "wf st \<Longrightarrow> wf (st\<lparr>heap := (heap st)(r \<mapsto> ob)\<rparr>)"
  by (simp add: wf_def)

lemma mirror_heap_upd:
  assumes "mirror_inv st" "heap st r = Some ob" "o_type ob' = o_type ob"
    "o_type ob = ''textbox'' \<Longrightarrow> form_mirrors st ob \<Longrightarrow> form_mirrors st ob'"
  shows "mirror_inv (st\<lparr>heap := (heap st)(r \<mapsto> ob')\<rparr>)"
  unfolding mirror_inv_def
proof (intro allI impI, elim conjE)
  fix q tb
  assume s: "selectedObject (st\<lparr>heap := (heap st)(r \<mapsto> ob')\<rparr>) = Some q"
    and h: "heap (st\<lparr>heap := (heap st)(r \<mapsto> ob')\<rparr>) q = Some tb"
    and t: "o_type tb = ''textbox''"
  have e: "form_mirrors (st\<lparr>heap := (heap st)(r \<mapsto> ob')\<rparr>) tb = form_mirrors st tb"
    by (rule form_mirrors_eqI) simp_all
  show "form_mirrors (st\<lparr>heap := (heap st)(r \<mapsto> ob')\<rparr>) tb"
  proof (cases "q = r")
    case True
    with h have tb: "tb = ob'" by simp
    with t assms(3) have "o_type ob = ''textbox''" by simp
    moreover from assms(1) s True assms(2) this have "form_mirrors st ob"
      by (auto simp: mirror_inv_def)
    ultimately have "form_mirrors st ob'" by (rule assms(4))
    then show ?thesis using e tb by simp
  next
    case False
    with h have "heap st q = Some tb" by simp
    with assms(1) s t show ?thesis unfolding e by (auto simp: mirror_inv_def)
  qed
qed

lemma inv_flip:
  assumes "wf st" "mirror_inv st"
  shows "wf (flipHorizontal st) \<and> mirror_inv (flipHorizontal st)"
    and "wf (flipVertical st) \<and> mirror_inv (flipVertical st)"
proof -
  have x: "\<And>r ob. heap st r = Some ob \<Longrightarrow>
      mirror_inv (st\<lparr>heap := (heap st)(r \<mapsto> ob\<lparr>o_flipX := \<not> o_flipX ob\<rparr>)\<rparr>)"
    by (rule mirror_heap_upd[OF assms(2)])
       (simp_all add: form_mirrors_obj_eqI[of "ob\<lparr>o_flipX := \<not> o_flipX ob\<rparr>" ob for ob])
  have y: "\<And>r ob. heap st r = Some ob \<Longrightarrow>
      mirror_inv (st\<lparr>heap := (heap st)(r \<mapsto> ob\<lparr>o_flipY := \<not> o_flipY ob\<rparr>)\<rparr>)"
    by (rule mirror_heap_upd[OF assms(2)])
       (simp_all add: form_mirrors_obj_eqI[of "ob\<lparr>o_flipY := \<not> o_flipY ob\<rparr>" ob for ob])
  show "wf (flipHorizontal st) \<and> mirror_inv (flipHorizontal st)"
    using assms x by (simp add: flipHorizontal_def wf_heap_upd split: option.splits)
  show "wf (flipVertical st) \<and> mirror_inv (flipVertical st)"
    using assms y by (simp add: flipVertical_def wf_heap_upd split: option.splits)
qed

lemma textbox_selectedE:
  assumes "textbox_selected st"
  obtains r ob where "selectedObject st = Some r" "heap st r = Some ob" "o_type ob = ''textbox''"
  using assms by (auto simp: textbox_selected_def split: option.splits)

lemma wf_updateSelected: "wf st \<Longrightarrow> wf (updateSelected L pv st)"
  by (simp add: updateSelected_def wf_heap_upd split: option.splits)

text \<open>
  A style control keeps the mirror when it writes the same value to the form field and to
  the object, or touches neither.
\<close>

lemma mirror_control:
  assumes m: "mirror_inv st" and sel: "textbox_selected st"
    and f: "heap st' = heap st" "selectedObject st' = selectedObject st"
    and k: "\<And>ob. form_mirrors st ob \<Longrightarrow> form_mirrors st' (set_prop L pv ob)"
  shows "mirror_inv (updateSelected L pv st')"
proof -
  from sel obtain r ob where s: "selectedObject st = Some r" and h: "heap st r = Some ob"
    and t: "o_type ob = ''textbox''" by (rule textbox_selectedE)
  have u: "updateSelected L pv st' = st'\<lparr>heap := (heap st')(r \<mapsto> set_prop L pv ob)\<rparr>"
    by (rule updateSelected_textbox) (simp_all add: f s h t)
  have ty: "o_type (set_prop L pv ob) = ''textbox''" using t by (cases pv) simp_all
  from m s h t have fm: "form_mirrors st ob" by (auto simp: mirror_inv_def)
  show ?thesis
    unfolding u mirror_inv_def
  proof (intro allI impI, elim conjE)
    fix q tb
    assume "selectedObject (st'\<lparr>heap := (heap st')(r \<mapsto> set_prop L pv ob)\<rparr>) = Some q"
      and hq: "heap (st'\<lparr>heap := (heap st')(r \<mapsto> set_prop L pv ob)\<rparr>) q = Some tb"
    then have "q = r" using f s by simp
    with hq have tb: "tb = set_prop L pv ob" by simp
    have "form_mirrors (st'\<lparr>heap := (heap st')(r \<mapsto> set_prop L pv ob)\<rparr>) tb = form_mirrors st' tb"
      by (rule form_mirrors_eqI) simp_all
    then show "form_mirrors (st'\<lparr>heap := (heap st')(r \<mapsto> set_prop L pv ob)\<rparr>) tb"
      unfolding tb using k[OF fm] by simp
  qed
qed

lemma inv_controls:
  assumes w: "wf st" and m: "mirror_inv st" and sel: "textbox_selected st"
  shows "wf (change_text L v st) \<and> mirror_inv (change_text L v st)"
    and "wf (click_bold L st) \<and> mirror_inv (click_bold L st)"
    and "wf (click_italic L st) \<and> mirror_inv (click_italic L st)"
    and "wf (click_underline L st) \<and> mirror_inv (click_underline L st)"
    and "wf (change_fontColor L v st) \<and> mirror_inv (change_fontColor L v st)"
    and "wf (change_strokeColor L v st) \<and> mirror_inv (change_strokeColor L v st)"
    and "wf (change_strokeWidth L x st) \<and> mirror_inv (change_strokeWidth L x st)"
    and "wf (change_shadowBlur L x st) \<and> mirror_inv (change_shadowBlur L x st)"
    and "wf (change_shadowColor L v st) \<and> mirror_inv (change_shadowColor L v st)"
    and "wf (change_bgColor L v st) \<and> mirror_inv (change_bgColor L v st)"
    and "wf (change_bgOpacity L x st) \<and> mirror_inv (change_bgOpacity L x st)"
    and "8 \<le> x \<Longrightarrow> wf (change_fontSize L x st) \<and> mirror_inv (change_fontSize L x st)"
    and "v = ''left'' \<or> v = ''center'' \<or> v = ''right'' \<Longrightarrow>
         wf (change_textAlign L v st) \<and> mirror_inv (change_textAlign L v st)"
proof -
  have wu: "\<And>pv st'. wf st' \<Longrightarrow> wf (updateSelected L pv st')" by (rule wf_updateSelected)
  note mc = mirror_control[OF m sel]
  show "wf (change_text L v st) \<and> mirror_inv (change_text L v st)"
    unfolding change_text_def
    by (intro conjI wu w mc; (unfold form_mirrors_def, elim conjE, intro conjI)?; simp)
  show "wf (click_bold L st) \<and> mirror_inv (click_bold L st)"
    unfolding click_bold_def Let_def
    by (intro conjI wu mc; (unfold form_mirrors_def, elim conjE, intro conjI)?;
        use w in \<open>simp add: wf_def\<close>)
  show "wf (click_italic L st) \<and> mirror_inv (click_italic L st)"
    unfolding click_italic_def Let_def
    by (intro conjI wu mc; (unfold form_mirrors_def, elim conjE, intro conjI)?;
        use w in \<open>simp add: wf_def\<close>)
  show "wf (click_underline L st) \<and> mirror_inv (click_underline L st)"
    unfolding click_underline_def Let_def
    by (intro conjI wu mc; (unfold form_mirrors_def, elim conjE, intro conjI)?;
        use w in \<open>simp add: wf_def\<close>)
  show "wf (change_fontColor L v st) \<and> mirror_inv (change_fontColor L v st)"
    unfolding change_fontColor_def
    by (intro conjI wu mc; (unfold form_mirrors_def, elim conjE, intro conjI)?;
        use w in \<open>simp add: wf_def\<close>)
  show "wf (change_strokeColor L v st) \<and> mirror_inv (change_strokeColor L v st)"
    unfolding change_strokeColor_def
    by (intro conjI wu mc; (unfold form_mirrors_def, elim conjE, intro conjI)?;
        use w in \<open>simp add: wf_def\<close>)
  show "wf (change_strokeWidth L x st) \<and> mirror_inv (change_strokeWidth L x st)"
    unfolding change_strokeWidth_def
    by (intro conjI wu mc; (unfold form_mirrors_def, elim conjE, intro conjI)?;
        use w in \<open>simp add: wf_def\<close>)
  show "wf (change_shadowBlur L x st) \<and> mirror_inv (change_shadowBlur L x st)"
    unfolding change_shadowBlur_def
    by (intro conjI wu mc; (unfold form_mirrors_def, elim conjE, intro conjI)?;
        use w in \<open>simp add: wf_def\<close>)
  show "wf (change_shadowColor L v st) \<and> mirror_inv (change_shadowColor L v st)"
    unfolding change_shadowColor_def
    by (intro conjI wu mc; (unfold form_mirrors_def, elim conjE, intro conjI)?;
        use w in \<open>simp add: wf_def\<close>)
  show "wf (change_bgColor L v st) \<and> mirror_inv (change_bgColor L v st)"
    unfolding change_bgColor_def
    by (intro conjI wu mc; (unfold form_mirrors_def, elim conjE, intro conjI)?;
        use w in \<open>simp add: wf_def\<close>)
  show "wf (change_bgOpacity L x st) \<and> mirror_inv (change_bgOpacity L x st)"
    unfolding change_bgOpacity_def
    by (intro conjI wu mc; (unfold form_mirrors_def, elim conjE, intro conjI)?;
        use w in \<open>simp add: wf_def\<close>)
  show "8 \<le> x \<Longrightarrow> wf (change_fontSize L x st) \<and> mirror_inv (change_fontSize L x st)"
    unfolding change_fontSize_def
    by (intro conjI wu mc; (unfold form_mirrors_def, elim conjE, intro conjI)?;
        use w in \<open>simp add: wf_def\<close>)
  show "v = ''left'' \<or> v = ''center'' \<or> v = ''right'' \<Longrightarrow>
         wf (change_textAlign L v st) \<and> mirror_inv (change_textAlign L v st)"
    unfolding change_textAlign_def
    by (intro conjI wu mc; (unfold form_mirrors_def, elim conjE, intro conjI)?;
        use w in \<open>auto simp add: wf_def\<close>)
qed

lemma inv_rebuild:
  assumes w: "wf st0" and r: "resizeCanvas st0 = Inr st1" and l: "loadContent L c st1 = Inr st'"
  shows "wf st' \<and> mirror_inv st'"
  using wf_loadContent[OF l wf_resizeCanvas[OF r w]] by (simp add: mirror_inv_None)

lemma inv_setPosterSize:
  assumes "wf st" "mirror_inv st" "setPosterSize L c k st = Inr st'"
  shows "wf st' \<and> mirror_inv st'"
proof (cases "k = posterSize st")
  case True
  with assms show ?thesis by (simp add: setPosterSize_def)
next
  case False
  with assms(3) obtain st1 where r: "resizeCanvas (st\<lparr>posterSize := k\<rparr>) = Inr st1"
    and l: "loadContent L c st1 = Inr st'"
    unfolding setPosterSize_def by (auto dest: bindE_Inr)
  have "wf (st\<lparr>posterSize := k\<rparr>)" using assms(1) by (simp add: wf_def)
  from inv_rebuild[OF this r l] show ?thesis .
qed

lemma inv_setOrientation:
  assumes "wf st" "mirror_inv st" "setOrientation L c v st = Inr st'"
  shows "wf st' \<and> mirror_inv st'"
proof (cases "v = orientation st")
  case True
  with assms show ?thesis by (simp add: setOrientation_def)
next
  case False
  with assms(3) obtain st1 where r: "resizeCanvas (st\<lparr>orientation := v\<rparr>) = Inr st1"
    and l: "loadContent L c st1 = Inr st'"
    unfolding setOrientation_def by (auto dest: bindE_Inr)
  have "wf (st\<lparr>orientation := v\<rparr>)" using assms(1) by (simp add: wf_def)
  from inv_rebuild[OF this r l] show ?thesis .
qed

lemma inv_resize_event:
  assumes "wf st" "mirror_inv st" "resizeCanvas (st\<lparr>container := cc\<rparr>) = Inr st'"
  shows "wf st' \<and> mirror_inv st'"
proof -
  have "wf (st\<lparr>container := cc\<rparr>)" using assms(1) by (simp add: wf_def)
  moreover have "mirror_inv (st\<lparr>container := cc\<rparr>)"
    by (rule mirror_inv_same_sel[OF assms(2)]) simp_all
  ultimately show ?thesis
    using wf_resizeCanvas[OF assms(3)] mirror_resizeCanvas[OF assms(3)] by simp
qed

lemma step_inv:
  assumes w: "wf st" and m: "mirror_inv st" and en: "enabled e st"
    and s: "step L c e st = Inr st'"
  shows "wf st' \<and> mirror_inv st'"
proof (cases e)
  case (Resize cw ch)
  with s show ?thesis using inv_resize_event[OF w m] by simp
next
  case (SetPosterSize k)
  with s show ?thesis using inv_setPosterSize[OF w m] by simp
next
  case (SetOrientation v)
  with s show ?thesis using inv_setOrientation[OF w m] by simp
next
  case (ImgElOnload i iw ih)
  with s show ?thesis using inv_imgEl_onload[OF w m] w m
    by (auto simp: Let_def split: if_splits)
next
  case (SelectObject r)
  with s en show ?thesis using wf_setActiveObject[OF w] mirror_setActiveObject[OF m] by auto
next
  case ClickEmpty
  with s show ?thesis using wf_discardActiveObject[OF w] mirror_discardActiveObject[OF w] by auto
next
  case AddText
  with s show ?thesis using inv_handleAddText[OF w m] by auto
next
  case (ImgOnload iw ih)
  with s show ?thesis using inv_img_onload[OF w m] by auto
next
  case Delete
  with s show ?thesis using inv_handleDelete[OF w] by auto
next
  case BringFront
  with s show ?thesis using inv_reorder(1)[OF w m] by auto
next
  case SendBack
  with s show ?thesis using inv_reorder(2)[OF w m] by auto
next
  case FlipH
  with s show ?thesis using inv_flip(1)[OF w m] by auto
next
  case FlipV
  with s show ?thesis using inv_flip(2)[OF w m] by auto
next
  case (EditText v)
  with s en show ?thesis using inv_controls(1)[OF w m] by auto
next
  case ClickBold
  with s en show ?thesis using inv_controls(2)[OF w m] by auto
next
  case ClickItalic
  with s en show ?thesis using inv_controls(3)[OF w m] by auto
next
  case ClickUnderline
  with s en show ?thesis using inv_controls(4)[OF w m] by auto
next
  case (FontColor v)
  with s en show ?thesis using inv_controls(5)[OF w m] by auto
next
  case (StrokeColor v)
  with s en show ?thesis using inv_controls(6)[OF w m] by auto
next
  case (StrokeWidth x)
  with s en show ?thesis using inv_controls(7)[OF w m] by auto
next
  case (ShadowBlur x)
  with s en show ?thesis using inv_controls(8)[OF w m] by auto
next
  case (ShadowColor v)
  with s en show ?thesis using inv_controls(9)[OF w m] by auto
next
  case (BgColor v)
  with s en show ?thesis using inv_controls(10)[OF w m] by auto
next
  case (BgOpacity x)
  with s en show ?thesis using inv_controls(11)[OF w m] by auto
next
  case (FontSize x)
  with s en show ?thesis using inv_controls(12)[OF w m] by auto
next
  case (TextAlign v)
  with s en show ?thesis using inv_controls(13)[OF w m] by auto
qed

lemma reachable_inv: "reachable L c st \<Longrightarrow> wf st \<and> mirror_inv st"
proof (induction rule: reachable.induct)
  case (reach_mount cont st)
  then show ?case by (rule mount_inv)
next
  case (reach_step st e st')
  then show ?case using step_inv by blast
qed

lemma run_reachable:
  "reachable L c st \<Longrightarrow> run L c es st = Some st' \<Longrightarrow> reachable L c st'"
proof (induction es arbitrary: st)
  case Nil
  then show ?case by simp
next
  case (Cons e es)
  from Cons.prems(2) obtain st1 where en: "enabled e st" and s: "step L c e st = Inr st1"
    and r: "run L c es st1 = Some st'"
    by (auto split: if_splits sum.splits)
  from reach_step[OF Cons.prems(1) en s] have "reachable L c st1" .
  from Cons.IH[OF this r] show ?case .
qed

lemma session_reachable: "session L c cont es = Some st \<Longrightarrow> reachable L c st"
  unfolding session_def
  by (auto split: sum.splits intro: run_reachable reach_mount)

section \<open>Deleting, selecting and styling: the claims\<close>

text \<open>The definitions unfolded to evaluate the model on a concrete session.\<close>

lemmas eval_defs =
  session_def mount_def initial_state_def resizeCanvas_def getCanvasDimensions_def BASE_SIZES_def
  loadContent_def addText_def bindE_def canvas_clear_def canvas_discardActiveObject_def
  canvas_add_def canvas_setActiveObject_def canvas_remove_def canvas_sendObjectToBack_def
  canvas_bringObjectToFront_def handleSelect_def handleClear_def handleAddText_def
  handleDelete_def img_onload_def imgEl_onload_def updateSelected_def
  new_Textbox_def initDimensions_def new_Image_def default_layout_def textbox_selected_def
  setPosterSize_def setOrientation_def object_at_def selected_box_def Let_def
  change_text_def click_bold_def click_italic_def click_underline_def change_fontColor_def
  change_strokeColor_def change_strokeWidth_def change_shadowBlur_def change_shadowColor_def
  change_bgColor_def change_bgOpacity_def change_fontSize_def change_textAlign_def
  flipHorizontal_def flipVertical_def bringFront_def sendBack_def
  sample_lib_def content_plain_def content_image_def content_hints_def content_partial_def
  sample_captions_def image_url_def trim_def startsWith_def is_space_def

lemma handleAddText_result:
  assumes "wf st"
  shows "selectedObject (handleAddText L st) = Some (nextRef st)"
    and "objects (handleAddText L st) = objects st @ [nextRef st]"
    and "\<And>r. r \<noteq> nextRef st \<Longrightarrow> heap (handleAddText L st) r = heap st r"
proof -
  obtain t where u: "handleAddText L st = canvas_setActiveObject (nextRef st) (canvas_add t st)"
    using handleAddText_unfold by blast
  from assms have "activeObject st \<noteq> Some (nextRef st)" by (auto simp: wf_def)
  then have a: "activeObject (canvas_add t st) \<noteq> Some (nextRef st)" by (simp add: canvas_add_def)
  show "selectedObject (handleAddText L st) = Some (nextRef st)"
    unfolding u canvas_setActiveObject_def using a by (simp add: handleSelect_frame)
  show "objects (handleAddText L st) = objects st @ [nextRef st]"
    unfolding u by (simp add: canvas_setActiveObject_frame canvas_add_def)
  show "\<And>r. r \<noteq> nextRef st \<Longrightarrow> heap (handleAddText L st) r = heap st r"
    unfolding u by (simp add: canvas_setActiveObject_frame canvas_add_def)
qed

text \<open>
  C7. In every state of a session, \<^verbatim>\<open>handleDelete\<close> changes nothing when no object is
  selected; the selected object is always on the canvas, and deleting it removes exactly
  that object from the stacking order, leaves the store alone and clears the selection.
  Hence \<^verbatim>\<open>handleAddText\<close> followed by \<^verbatim>\<open>handleDelete\<close> gives back the objects the canvas had,
  in number, order and content, with nothing selected.
\<close>

theorem handleDelete_spec:
  assumes "reachable L c st"
  shows "(selectedObject st = None \<longrightarrow> handleDelete st = st)
    \<and> (\<forall>r. selectedObject st = Some r \<longrightarrow>
          r \<in> set (objects st)
          \<and> objects (handleDelete st) = remove1 r (objects st)
          \<and> set (objects (handleDelete st)) = set (objects st) - {r}
          \<and> heap (handleDelete st) = heap st
          \<and> selectedObject (handleDelete st) = None)
    \<and> objects (handleDelete (handleAddText L st)) = objects st
    \<and> length (objects (handleDelete (handleAddText L st))) = length (objects st)
    \<and> (\<forall>r \<in> set (objects st). heap (handleDelete (handleAddText L st)) r = heap st r)
    \<and> selectedObject (handleDelete (handleAddText L st)) = None"
proof -
  from reachable_inv[OF assms] have w: "wf st" and m: "mirror_inv st" by simp_all
  have a: "selectedObject st = None \<longrightarrow> handleDelete st = st"
    by (simp add: handleDelete_def)
  have b: "\<forall>r. selectedObject st = Some r \<longrightarrow>
          r \<in> set (objects st)
          \<and> objects (handleDelete st) = remove1 r (objects st)
          \<and> set (objects (handleDelete st)) = set (objects st) - {r}
          \<and> heap (handleDelete st) = heap st
          \<and> selectedObject (handleDelete st) = None"
  proof (intro allI impI)
    fix r assume s: "selectedObject st = Some r"
    from w have d: "distinct (objects st)" by (simp add: wf_def)
    from wf_selected_allocated[OF w s] have "r \<in> set (objects st)" by simp
    then show "r \<in> set (objects st)
          \<and> objects (handleDelete st) = remove1 r (objects st)
          \<and> set (objects (handleDelete st)) = set (objects st) - {r}
          \<and> heap (handleDelete st) = heap st
          \<and> selectedObject (handleDelete st) = None"
      unfolding handleDelete_result[OF w s] using d by simp
  qed
  from inv_handleAddText[OF w m] have w': "wf (handleAddText L st)" by simp
  note r = handleAddText_result[OF w, where L = L]
  have f: "nextRef st \<notin> set (objects st)" by (rule wf_fresh[OF w])
  have o: "objects (handleDelete (handleAddText L st)) = objects st"
    unfolding handleDelete_result[OF w' r(1)] using f
    by (simp add: r(2) remove1_append_fresh)
  have h: "\<forall>q \<in> set (objects st). heap (handleDelete (handleAddText L st)) q = heap st q"
  proof
    fix q assume "q \<in> set (objects st)"
    with f have "q \<noteq> nextRef st" by auto
    from r(3)[OF this] show "heap (handleDelete (handleAddText L st)) q = heap st q"
      unfolding handleDelete_result[OF w' r(1)] by simp
  qed
  have s: "selectedObject (handleDelete (handleAddText L st)) = None"
    unfolding handleDelete_result[OF w' r(1)] by simp
  from o have "length (objects (handleDelete (handleAddText L st))) = length (objects st)"
    by simp
  with a b o h s show ?thesis by (intro conjI)
qed

theorem handleDelete_spec_witness:
  "(\<exists>st. session sample_lib content_plain (Some (1000, 800)) [] = Some st
       \<and> selectedObject st = None \<and> handleDelete st = st
       \<and> objects st = [0, 1, 2]
       \<and> objects (handleDelete (handleAddText sample_lib st)) = [0, 1, 2]
       \<and> selectedObject (handleDelete (handleAddText sample_lib st)) = None)
   \<and> (\<exists>st. session sample_lib content_plain (Some (1000, 800)) [AddText] = Some st
       \<and> selectedObject st = Some 3 \<and> objects st = [0, 1, 2, 3]
       \<and> objects (handleDelete st) = [0, 1, 2]
       \<and> selectedObject (handleDelete st) = None)"
proof -
  have "\<exists>st. session sample_lib content_plain (Some (1000, 800)) [] = Some st
          \<and> selectedObject st = None \<and> objects st = [0, 1, 2]"
    by (simp add: eval_defs)
  then obtain st0 where s0: "session sample_lib content_plain (Some (1000, 800)) [] = Some st0"
    and f0: "selectedObject st0 = None" "objects st0 = [0, 1, 2]" by blast
  have "\<exists>st. session sample_lib content_plain (Some (1000, 800)) [AddText] = Some st
          \<and> selectedObject st = Some 3 \<and> objects st = [0, 1, 2, 3]"
    by (simp add: eval_defs)
  then obtain st1 where s1: "session sample_lib content_plain (Some (1000, 800)) [AddText] = Some st1"
    and f1: "selectedObject st1 = Some 3" "objects st1 = [0, 1, 2, 3]" by blast
  from handleDelete_spec[OF session_reachable[OF s0]] f0
  have a: "handleDelete st0 = st0"
        "objects (handleDelete (handleAddText sample_lib st0)) = [0, 1, 2]"
        "selectedObject (handleDelete (handleAddText sample_lib st0)) = None"
    by simp_all
  from handleDelete_spec[OF session_reachable[OF s1]] f1
  have b: "objects (handleDelete st1) = [0, 1, 2]" "selectedObject (handleDelete st1) = None"
    by simp_all
  from s0 f0 a s1 f1 b show ?thesis by blast
qed

lemma set_prop_type: "o_type (set_prop L pv ob) = o_type ob"
  by (cases pv) (simp_all add: initDimensions_def)

lemma set_prop_holds: "prop_holds pv (set_prop L pv ob)"
  by (cases pv) (simp_all add: initDimensions_def)

lemma set_prop_unchanged:
  "unchanged_except [prop_name pv, ''width'', ''height''] ob (set_prop L pv ob)"
  by (cases pv) (simp_all add: unchanged_except_def initDimensions_def)

lemma set_prop_unchanged_no_layout:
  "\<not> layout_prop pv \<Longrightarrow> unchanged_except [prop_name pv] ob (set_prop L pv ob)"
  by (cases pv) (simp_all add: unchanged_except_def)

text \<open>
  C8, as the page and the canvas behave. With a selected text box,
  \<^verbatim>\<open>updateSelected(prop, val)\<close> gives the named property the value passed. For a text layout
  property (text, font size, weight, style, alignment) the canvas lays the box out again,
  so its width and height may change with it; for any other property exactly the named
  one changes. Every other property of the text box, every other object, the stacking
  order, the selection and the rest of the state stay as they were. With a selected object
  that is not a text box (an image) it changes nothing at all.
\<close>

theorem updateSelected_named_and_layout:
  assumes "selectedObject st = Some r" "heap st r = Some ob"
  shows "(o_type ob = ''textbox'' \<longrightarrow>
            (\<exists>ob'. heap (updateSelected L pv st) r = Some ob'
                \<and> prop_holds pv ob'
                \<and> unchanged_except [prop_name pv, ''width'', ''height''] ob ob'
                \<and> (\<not> layout_prop pv \<longrightarrow> unchanged_except [prop_name pv] ob ob'))
            \<and> (\<forall>q. q \<noteq> r \<longrightarrow> heap (updateSelected L pv st) q = heap st q)
            \<and> objects (updateSelected L pv st) = objects st
            \<and> selectedObject (updateSelected L pv st) = selectedObject st
            \<and> updateSelected L pv st = st\<lparr>heap := heap (updateSelected L pv st)\<rparr>)
       \<and> (o_type ob \<noteq> ''textbox'' \<longrightarrow> updateSelected L pv st = st)"
proof (cases "o_type ob = ''textbox''")
  case True
  note u = updateSelected_textbox[OF assms True, of L pv]
  show ?thesis
    using True set_prop_holds[of pv L ob] set_prop_unchanged[of pv ob L]
      set_prop_unchanged_no_layout[of pv ob L]
    unfolding u by simp
next
  case False
  then show ?thesis using updateSelected_other[OF assms False] by simp
qed

theorem updateSelected_named_and_layout_witness:
  "(\<exists>st ob. session sample_lib content_plain (Some (1000, 800)) [SelectObject 0] = Some st
       \<and> heap st 0 = Some ob \<and> o_fontSize ob = 36 \<and> o_text ob = ''H''
       \<and> map_option o_fontSize (heap (updateSelected sample_lib (P_fontSize 40) st) 0) = Some 40
       \<and> map_option o_text (heap (updateSelected sample_lib (P_fontSize 40) st) 0) = Some ''H''
       \<and> map_option o_fill (heap (updateSelected sample_lib (P_fill ''#ff0000'') st) 0)
            = Some ''#ff0000''
       \<and> map_option o_width (heap (updateSelected sample_lib (P_fill ''#ff0000'') st) 0)
            = Some (o_width ob)
       \<and> map_option o_height (heap (updateSelected sample_lib (P_fill ''#ff0000'') st) 0)
            = Some (o_height ob)
       \<and> heap (updateSelected sample_lib (P_fontSize 40) st) 1 = heap st 1
       \<and> objects (updateSelected sample_lib (P_fontSize 40) st) = [0, 1, 2])
   \<and> (\<exists>st. session sample_lib content_plain (Some (1000, 800)) [ImgOnload 640 480] = Some st
       \<and> selectedObject st = Some 3
       \<and> map_option o_type (heap st 3) = Some ''image''
       \<and> updateSelected sample_lib (P_fontSize 40) st = st)"
proof -
  have "\<exists>st ob. session sample_lib content_plain (Some (1000, 800)) [SelectObject 0] = Some st
         \<and> selectedObject st = Some 0 \<and> heap st 0 = Some ob \<and> o_type ob = ''textbox''
         \<and> o_fontSize ob = 36 \<and> o_text ob = ''H'' \<and> objects st = [0, 1, 2]"
    by (simp add: eval_defs)
  then obtain st ob where s: "session sample_lib content_plain (Some (1000, 800)) [SelectObject 0] = Some st"
    and f: "selectedObject st = Some 0" "heap st 0 = Some ob" and t: "o_type ob = ''textbox''"
    and v: "o_fontSize ob = 36" "o_text ob = ''H''" "objects st = [0, 1, 2]"
    by blast
  from updateSelected_named_and_layout[OF f, of sample_lib "P_fontSize 40"] t v
  have a: "map_option o_fontSize (heap (updateSelected sample_lib (P_fontSize 40) st) 0) = Some 40
       \<and> map_option o_text (heap (updateSelected sample_lib (P_fontSize 40) st) 0) = Some ''H''
       \<and> heap (updateSelected sample_lib (P_fontSize 40) st) 1 = heap st 1
       \<and> objects (updateSelected sample_lib (P_fontSize 40) st) = [0, 1, 2]"
    by (auto simp: unchanged_except_def)
  from updateSelected_named_and_layout[OF f, of sample_lib "P_fill ''#ff0000''"] t
  have c: "map_option o_fill (heap (updateSelected sample_lib (P_fill ''#ff0000'') st) 0)
            = Some ''#ff0000''
       \<and> map_option o_width (heap (updateSelected sample_lib (P_fill ''#ff0000'') st) 0)
            = Some (o_width ob)
       \<and> map_option o_height (heap (updateSelected sample_lib (P_fill ''#ff0000'') st) 0)
            = Some (o_height ob)"
    by (auto simp: unchanged_except_def)
  have "\<exists>st ob. session sample_lib content_plain (Some (1000, 800)) [ImgOnload 640 480] = Some st
         \<and> selectedObject st = Some 3 \<and> heap st 3 = Some ob \<and> o_type ob = ''image''"
    by (simp add: eval_defs)
  then obtain st' ob' where s': "session sample_lib content_plain (Some (1000, 800)) [ImgOnload 640 480] = Some st'"
    and f': "selectedObject st' = Some 3" "heap st' 3 = Some ob'" and t': "o_type ob' = ''image''"
    by blast
  from updateSelected_named_and_layout[OF f', of sample_lib "P_fontSize 40"] t'
  have b: "updateSelected sample_lib (P_fontSize 40) st' = st'" by simp
  from s f v a c s' f' t' b show ?thesis by auto
qed

text \<open>
  The claim that only the named attribute changes fails for the font size. On the mounted
  A4 page the headline box, of font size 36, is laid out 40.68 high; select it and set the
  font size to 40: the named property is \<^verbatim>\<open>fontSize\<close> and the height of the box is now 45.2.
\<close>

theorem updateSelected_relayout:
  "map_option o_height (Option.bind
       (session sample_lib content_plain (Some (1000, 800)) [SelectObject 0]) selected_box)
     = Some (4068 / 100)
   \<and> map_option o_fontSize (Option.bind
       (map_option (updateSelected sample_lib (P_fontSize 40))
          (session sample_lib content_plain (Some (1000, 800)) [SelectObject 0])) selected_box)
     = Some 40
   \<and> map_option o_height (Option.bind
       (map_option (updateSelected sample_lib (P_fontSize 40))
          (session sample_lib content_plain (Some (1000, 800)) [SelectObject 0])) selected_box)
     = Some (452 / 10)
   \<and> prop_name (P_fontSize 40) = ''fontSize''
   \<and> (4068 / 100 :: rat) \<noteq> 452 / 10"
  by (simp add: eval_defs)

theorem flip_twice_witness:
  "\<exists>st. session sample_lib content_plain (Some (1000, 800)) [SelectObject 1] = Some st
      \<and> flipHorizontal (flipHorizontal st) = st \<and> flipVertical (flipVertical st) = st
      \<and> map_option o_flipX (heap st 1) = Some False
      \<and> map_option o_flipX (heap (flipHorizontal st) 1) = Some True
      \<and> map_option o_flipY (heap (flipHorizontal st) 1) = Some False
      \<and> map_option o_flipY (heap (flipVertical st) 1) = Some True"
proof -
  have "\<exists>st ob. session sample_lib content_plain (Some (1000, 800)) [SelectObject 1] = Some st
         \<and> selectedObject st = Some 1 \<and> heap st 1 = Some ob
         \<and> o_flipX ob = False \<and> o_flipY ob = False"
    by (simp add: eval_defs)
  then obtain st ob where s: "session sample_lib content_plain (Some (1000, 800)) [SelectObject 1] = Some st"
    and f: "selectedObject st = Some 1" "heap st 1 = Some ob"
    and v: "o_flipX ob = False" "o_flipY ob = False"
    by blast
  note ft = flip_twice[of st 1 ob]
  from ft have a1: "flipHorizontal (flipHorizontal st) = st" by (rule conjunct1)
  from ft have a2: "flipVertical (flipVertical st) = st" by blast
  from ft f have b1: "flipHorizontal st = st\<lparr>heap := (heap st)(1 \<mapsto> ob\<lparr>o_flipX := \<not> o_flipX ob\<rparr>)\<rparr>"
    by blast
  from ft f have b2: "flipVertical st = st\<lparr>heap := (heap st)(1 \<mapsto> ob\<lparr>o_flipY := \<not> o_flipY ob\<rparr>)\<rparr>"
    by blast
  have c: "map_option o_flipX (heap st 1) = Some False"
      "map_option o_flipX (heap (flipHorizontal st) 1) = Some True"
      "map_option o_flipY (heap (flipHorizontal st) 1) = Some False"
      "map_option o_flipY (heap (flipVertical st) 1) = Some True"
    unfolding b1 b2 using f v by simp_all
  from s a1 a2 c show ?thesis by blast
qed

lemma handleAddText_heap:
  "heap (handleAddText L st) (nextRef st) =
     Some (new_Textbox L ''New text''
             (\<lambda>ob. ob
                \<lparr>o_left := 100,
                 o_top := 100,
                 o_width := 300,
                 o_fontSize := fontSize st,
                 o_fontFamily := fontFamily st,
                 o_fontWeight := fontWeight st,
                 o_fontStyle := fontStyle st,
                 o_underline := underline st,
                 o_fill := fontColor st,
                 o_stroke := Some (strokeColor st),
                 o_strokeWidth := strokeWidth st,
                 o_backgroundColor := CssRgba (bgColor st) (bgOpacity st),
                 o_shadow := (if shadowBlur st \<noteq> 0
                              then Some \<lparr>sh_color = shadowColor st, sh_blur = shadowBlur st\<rparr>
                              else None)\<rparr>))"
  unfolding handleAddText_def Let_def
  by (simp add: canvas_setActiveObject_frame) (simp add: canvas_add_def)

lemma handleAddText_shadowBlur: "shadowBlur (handleAddText L st) = shadowBlur st"
  unfolding handleAddText_def Let_def
  by (simp add: canvas_setActiveObject_frame) (simp add: canvas_add_def)

lemma control_pushes:
  assumes s: "selectedObject st = Some r" and h: "heap st r = Some tb"
    and t: "o_type tb = ''textbox''"
  shows "map_option o_text (selected_box (change_text L v st)) = Some v"
    and "map_option o_fontWeight (selected_box (click_bold L st))
           = Some (fontWeight (click_bold L st))"
    and "map_option o_fontStyle (selected_box (click_italic L st))
           = Some (fontStyle (click_italic L st))"
    and "map_option o_underline (selected_box (click_underline L st))
           = Some (underline (click_underline L st))"
    and "map_option o_fill (selected_box (change_fontColor L v st)) = Some v
           \<and> fontColor (change_fontColor L v st) = v"
    and "map_option o_stroke (selected_box (change_strokeColor L v st)) = Some (Some v)
           \<and> strokeColor (change_strokeColor L v st) = v"
    and "map_option o_strokeWidth (selected_box (change_strokeWidth L x st)) = Some x
           \<and> strokeWidth (change_strokeWidth L x st) = x"
    and "map_option o_backgroundColor (selected_box (change_bgColor L v st))
           = Some (CssRgba v (bgOpacity st))
           \<and> bgColor (change_bgColor L v st) = v"
    and "map_option o_backgroundColor (selected_box (change_bgOpacity L x st))
           = Some (CssRgba (bgColor st) x)
           \<and> bgOpacity (change_bgOpacity L x st) = x"
    and "map_option o_fontSize (selected_box (change_fontSize L x st)) = Some x
           \<and> fontSize (change_fontSize L x st) = x"
    and "map_option o_textAlign (selected_box (change_textAlign L v st)) = Some v
           \<and> textAlign (change_textAlign L v st) = v"
  using s h t
  by (simp_all add: selected_box_def updateSelected_def Let_def initDimensions_def
      change_text_def click_bold_def click_italic_def click_underline_def change_fontColor_def
      change_strokeColor_def change_strokeWidth_def change_bgColor_def change_bgOpacity_def
      change_fontSize_def change_textAlign_def)

text \<open>
  C3, as the page keeps it. In every state of a session where a text box is selected, the
  form's font colour, size, family, alignment, weight, style and underline are those of the
  text box, as \<^verbatim>\<open>handleSelect\<close> copies them: a size of 0 shows as 24, an empty family as
  Helvetica, an empty alignment as left, an empty weight or style as normal. Every style
  control gives the property it edits, on the selected text box, the value it sets, and its
  form field, where it has one, the same value.
\<close>

theorem selected_textbox_mirrored:
  assumes reach: "reachable L c st"
    and s: "selectedObject st = Some r" and h: "heap st r = Some tb"
    and t: "o_type tb = ''textbox''"
  shows "fontColor st = o_fill tb
    \<and> fontSize st = (if o_fontSize tb \<noteq> 0 then o_fontSize tb else 24)
    \<and> fontFamily st = (if o_fontFamily tb \<noteq> [] then o_fontFamily tb else ''Helvetica'')
    \<and> textAlign st = (if o_textAlign tb \<noteq> [] then o_textAlign tb else ''left'')
    \<and> fontWeight st = (if o_fontWeight tb \<noteq> [] then o_fontWeight tb else ''normal'')
    \<and> fontStyle st = (if o_fontStyle tb \<noteq> [] then o_fontStyle tb else ''normal'')
    \<and> underline st = o_underline tb
    \<and> map_option o_text (selected_box (change_text L v st)) = Some v
    \<and> map_option o_fontWeight (selected_box (click_bold L st))
           = Some (fontWeight (click_bold L st))
    \<and> map_option o_fontStyle (selected_box (click_italic L st))
           = Some (fontStyle (click_italic L st))
    \<and> map_option o_underline (selected_box (click_underline L st))
           = Some (underline (click_underline L st))
    \<and> map_option o_fill (selected_box (change_fontColor L v st)) = Some v
    \<and> fontColor (change_fontColor L v st) = v
    \<and> map_option o_stroke (selected_box (change_strokeColor L v st)) = Some (Some v)
    \<and> strokeColor (change_strokeColor L v st) = v
    \<and> map_option o_strokeWidth (selected_box (change_strokeWidth L x st)) = Some x
    \<and> strokeWidth (change_strokeWidth L x st) = x
    \<and> map_option o_backgroundColor (selected_box (change_bgColor L v st))
           = Some (CssRgba v (bgOpacity st))
    \<and> bgColor (change_bgColor L v st) = v
    \<and> map_option o_backgroundColor (selected_box (change_bgOpacity L x st))
           = Some (CssRgba (bgColor st) x)
    \<and> bgOpacity (change_bgOpacity L x st) = x
    \<and> map_option o_fontSize (selected_box (change_fontSize L x st)) = Some x
    \<and> fontSize (change_fontSize L x st) = x
    \<and> map_option o_textAlign (selected_box (change_textAlign L v st)) = Some v
    \<and> textAlign (change_textAlign L v st) = v"
proof -
  from reachable_inv[OF reach] have "mirror_inv st" by simp
  with s h t have "form_mirrors st tb" by (auto simp: mirror_inv_def)
  then have m: "fontColor st = o_fill tb
    \<and> fontSize st = (if o_fontSize tb \<noteq> 0 then o_fontSize tb else 24)
    \<and> fontFamily st = (if o_fontFamily tb \<noteq> [] then o_fontFamily tb else ''Helvetica'')
    \<and> textAlign st = (if o_textAlign tb \<noteq> [] then o_textAlign tb else ''left'')
    \<and> fontWeight st = (if o_fontWeight tb \<noteq> [] then o_fontWeight tb else ''normal'')
    \<and> fontStyle st = (if o_fontStyle tb \<noteq> [] then o_fontStyle tb else ''normal'')
    \<and> underline st = o_underline tb"
    unfolding form_mirrors_def .
  note p = control_pushes[OF s h t, where L = L]
  show ?thesis
    using m p(1)[of v] p(2) p(3) p(4) p(5)[of v] p(6)[of v] p(7)[of x] p(8)[of v] p(9)[of x]
      p(10)[of x] p(11)[of v]
    by (intro conjI) (erule conjE | assumption)+
qed

theorem selected_textbox_mirrored_witness:
  "\<exists>st tb. session sample_lib content_plain (Some (1000, 800)) [SelectObject 0] = Some st
      \<and> selected_box st = Some tb
      \<and> o_fill tb = ''#ffffff'' \<and> fontColor st = ''#ffffff''
      \<and> o_fontSize tb = 36 \<and> fontSize st = 36
      \<and> o_fontWeight tb = ''bold'' \<and> fontWeight st = ''bold''
      \<and> fontFamily st = o_fontFamily tb \<and> textAlign st = o_textAlign tb
      \<and> fontStyle st = o_fontStyle tb \<and> underline st = o_underline tb
      \<and> map_option o_fontSize (selected_box (change_fontSize sample_lib 40 st)) = Some 40
      \<and> fontSize (change_fontSize sample_lib 40 st) = 40
      \<and> map_option o_strokeWidth (selected_box (change_strokeWidth sample_lib 3 st)) = Some 3
      \<and> strokeWidth (change_strokeWidth sample_lib 3 st) = 3"
proof -
  have "\<exists>st tb. session sample_lib content_plain (Some (1000, 800)) [SelectObject 0] = Some st
         \<and> selectedObject st = Some 0 \<and> heap st 0 = Some tb \<and> o_type tb = ''textbox''
         \<and> o_fill tb = ''#ffffff'' \<and> o_fontSize tb = 36 \<and> o_fontWeight tb = ''bold''
         \<and> o_fontFamily tb = ''Times New Roman'' \<and> o_textAlign tb = ''left''
         \<and> o_fontStyle tb = ''normal''"
    by (simp add: eval_defs)
  then obtain st tb where
    s: "session sample_lib content_plain (Some (1000, 800)) [SelectObject 0] = Some st"
    and f: "selectedObject st = Some 0" "heap st 0 = Some tb" "o_type tb = ''textbox''"
    and v: "o_fill tb = ''#ffffff''" "o_fontSize tb = 36" "o_fontWeight tb = ''bold''"
       "o_fontFamily tb = ''Times New Roman''" "o_textAlign tb = ''left''"
       "o_fontStyle tb = ''normal''"
    by blast
  have b: "selected_box st = Some tb" using f by (simp add: selected_box_def)
  from selected_textbox_mirrored[OF session_reachable[OF s] f, of "[]" 40] v
  have m: "fontColor st = ''#ffffff''" "fontSize st = 36" "fontWeight st = ''bold''"
      "fontFamily st = o_fontFamily tb" "textAlign st = o_textAlign tb"
      "fontStyle st = o_fontStyle tb" "underline st = o_underline tb"
      "map_option o_fontSize (selected_box (change_fontSize sample_lib 40 st)) = Some 40"
      "fontSize (change_fontSize sample_lib 40 st) = 40"
    by simp_all
  from selected_textbox_mirrored[OF session_reachable[OF s] f, of "[]" 3]
  have n: "map_option o_strokeWidth (selected_box (change_strokeWidth sample_lib 3 st)) = Some 3"
      "strokeWidth (change_strokeWidth sample_lib 3 st) = 3"
    by simp_all
  from s b v m n show ?thesis by blast
qed

text \<open>
  The claim that every field of the form is copied on selection fails for the stroke width:
  add two text boxes, set the stroke width of the second to 3 and select the first. The
  selected text box has stroke width 0 and the form shows 3.
\<close>

theorem stroke_not_resynchronised:
  "map_option selectedObject (session sample_lib content_plain (Some (1000, 800))
       [AddText, AddText, StrokeWidth 3, SelectObject 3]) = Some (Some 3)
   \<and> map_option o_type (Option.bind (session sample_lib content_plain (Some (1000, 800))
       [AddText, AddText, StrokeWidth 3, SelectObject 3]) selected_box) = Some ''textbox''
   \<and> map_option o_strokeWidth (Option.bind (session sample_lib content_plain (Some (1000, 800))
       [AddText, AddText, StrokeWidth 3, SelectObject 3]) selected_box) = Some 0
   \<and> map_option strokeWidth (session sample_lib content_plain (Some (1000, 800))
       [AddText, AddText, StrokeWidth 3, SelectObject 3]) = Some 3"
  by (simp add: eval_defs)

section \<open>Decodes that complete after a rebuild\<close>

lemma resizeCanvas_pending: "resizeCanvas st = Inr st' \<Longrightarrow> pending st' = pending st"
  by (drule resizeCanvas_result) auto

lemma loadContent_pending:
  assumes "loadContent L c st = Inr st'" "wf st"
  shows "\<exists>qs. pending st' = pending st @ qs"
proof -
  from loadContent_result[OF assms] obtain a b d ps where
    r: "st' = st\<lparr>activeObject := None, selectedObject := None, pending := ps,
            heap := (heap st)(nextRef st \<mapsto> a, Suc (nextRef st) \<mapsto> b, Suc (Suc (nextRef st)) \<mapsto> d),
            objects := [nextRef st, Suc (nextRef st), Suc (Suc (nextRef st))],
            nextRef := Suc (Suc (Suc (nextRef st)))\<rparr>"
    and q: "\<exists>qs. ps = pending st @ qs" by blast
  from q show ?thesis unfolding r by simp
qed

lemma rebuild_pending:
  assumes w: "wf st0" and r: "resizeCanvas st0 = Inr st1" and l: "loadContent L c st1 = Inr st'"
  shows "\<exists>qs. pending st' = pending st0 @ qs"
  using loadContent_pending[OF l wf_resizeCanvas[OF r w]] resizeCanvas_pending[OF r] by simp

lemma setPosterSize_pending:
  assumes "wf st" "setPosterSize L c k st = Inr st'"
  shows "\<exists>qs. pending st' = pending st @ qs"
proof (cases "k = posterSize st")
  case True
  with assms show ?thesis by (simp add: setPosterSize_def)
next
  case False
  with assms(2) obtain st1 where r: "resizeCanvas (st\<lparr>posterSize := k\<rparr>) = Inr st1"
    and l: "loadContent L c st1 = Inr st'"
    unfolding setPosterSize_def by (auto dest: bindE_Inr)
  have "wf (st\<lparr>posterSize := k\<rparr>)" using assms(1) by (simp add: wf_def)
  from rebuild_pending[OF this r l] show ?thesis by simp
qed

lemma setOrientation_pending:
  assumes "wf st" "setOrientation L c v st = Inr st'"
  shows "\<exists>qs. pending st' = pending st @ qs"
proof (cases "v = orientation st")
  case True
  with assms show ?thesis by (simp add: setOrientation_def)
next
  case False
  with assms(2) obtain st1 where r: "resizeCanvas (st\<lparr>orientation := v\<rparr>) = Inr st1"
    and l: "loadContent L c st1 = Inr st'"
    unfolding setOrientation_def by (auto dest: bindE_Inr)
  have "wf (st\<lparr>orientation := v\<rparr>)" using assms(1) by (simp add: wf_def)
  from rebuild_pending[OF this r l] show ?thesis by simp
qed

text \<open>
  C4, as the page behaves. There is no staleness check. An image element that is still
  decoding when a change of page size or orientation rebuilds the scene stays pending, and
  when its decode completes the callback inserts its image at the back of the rebuilt
  scene, centred and scaled for the page dimensions captured when its own import started.
\<close>

theorem late_decode_inserted:
  assumes reach: "reachable L c st"
    and rebuild: "step L c (SetPosterSize k) st = Inr st1
                  \<or> step L c (SetOrientation v) st = Inr st1"
    and i: "i < length (pending st)"
  shows "i < length (pending st1) \<and> pending st1 ! i = pending st ! i
    \<and> (\<exists>st2 img. step L c (ImgElOnload i iw ih) st1 = Inr st2
          \<and> objects st2 = nextRef st1 # objects st1
          \<and> heap st2 (nextRef st1) = Some img
          \<and> o_type img = ''image''
          \<and> o_left img = of_nat (p_width (pending st ! i)) / 2
          \<and> o_top img = of_nat (p_height (pending st ! i)) / 2
          \<and> o_scaleX img =
               (if (of_nat iw :: rat) / of_nat ih
                     > of_nat (p_width (pending st ! i)) / of_nat (p_height (pending st ! i))
                then of_nat (p_width (pending st ! i)) / of_nat iw
                else of_nat (p_height (pending st ! i)) / of_nat ih)
          \<and> o_scaleY img = o_scaleX img)"
proof -
  from reachable_inv[OF reach] have w: "wf st" and m: "mirror_inv st" by simp_all
  from rebuild have "\<exists>qs. pending st1 = pending st @ qs"
    using setPosterSize_pending[OF w] setOrientation_pending[OF w] by auto
  then obtain qs where p: "pending st1 = pending st @ qs" by blast
  from rebuild have w1: "wf st1"
    using inv_setPosterSize[OF w m] inv_setOrientation[OF w m] by auto
  have a: "i < length (pending st1)" "pending st1 ! i = pending st ! i"
    using i by (simp_all add: p nth_append)
  let ?ps = "take i (pending st1) @ drop (Suc i) (pending st1)"
  have w2: "wf (st1\<lparr>pending := ?ps\<rparr>)" using w1 by (simp add: wf_def)
  have f: "nextRef (st1\<lparr>pending := ?ps\<rparr>) \<notin> set (objects (st1\<lparr>pending := ?ps\<rparr>))"
    by (rule wf_fresh[OF w2])
  have "\<exists>st2 img. step L c (ImgElOnload i iw ih) st1 = Inr st2
          \<and> objects st2 = nextRef st1 # objects st1
          \<and> heap st2 (nextRef st1) = Some img
          \<and> o_type img = ''image''
          \<and> o_left img = of_nat (p_width (pending st ! i)) / 2
          \<and> o_top img = of_nat (p_height (pending st ! i)) / 2
          \<and> o_scaleX img =
               (if (of_nat iw :: rat) / of_nat ih
                     > of_nat (p_width (pending st ! i)) / of_nat (p_height (pending st ! i))
                then of_nat (p_width (pending st ! i)) / of_nat iw
                else of_nat (p_height (pending st ! i)) / of_nat ih)
          \<and> o_scaleY img = o_scaleX img"
    by (simp add: Let_def imgEl_onload_result[OF f] a new_Image_def)
  with a show ?thesis by simp
qed

theorem late_decode_inserted_witness:
  "\<exists>st st1. session sample_lib content_image (Some (1000, 800)) [] = Some st
      \<and> step sample_lib content_image (SetPosterSize ''A5'') st = Inr st1
      \<and> pending st = [\<lparr>p_src = ''data:image/png;base64,iVBORw0KGgo='',
                         p_width = 794, p_height = 1123\<rparr>]
      \<and> canvasWidth st1 = 559 \<and> canvasHeight st1 = 794
      \<and> pending st1 ! 0 = pending st ! 0
      \<and> (\<exists>st2 img. step sample_lib content_image (ImgElOnload 0 800 600) st1 = Inr st2
            \<and> objects st2 = [6, 3, 4, 5]
            \<and> heap st2 6 = Some img \<and> o_type img = ''image''
            \<and> o_left img = 794 / 2 \<and> o_top img = 1123 / 2 \<and> o_scaleX img = 794 / 800)"
proof -
  have "\<exists>st st1. session sample_lib content_image (Some (1000, 800)) [] = Some st
      \<and> step sample_lib content_image (SetPosterSize ''A5'') st = Inr st1
      \<and> pending st = [\<lparr>p_src = ''data:image/png;base64,iVBORw0KGgo='',
                         p_width = 794, p_height = 1123\<rparr>]
      \<and> canvasWidth st1 = 559 \<and> canvasHeight st1 = 794
      \<and> nextRef st1 = 6 \<and> objects st1 = [3, 4, 5]"
    by (simp add: eval_defs)
  then obtain st st1 where
    s: "session sample_lib content_image (Some (1000, 800)) [] = Some st"
    and r: "step sample_lib content_image (SetPosterSize ''A5'') st = Inr st1"
    and p: "pending st = [\<lparr>p_src = ''data:image/png;base64,iVBORw0KGgo='',
                         p_width = 794, p_height = 1123\<rparr>]"
    and v: "canvasWidth st1 = 559" "canvasHeight st1 = 794" "nextRef st1 = 6"
       "objects st1 = [3, 4, 5]"
    by blast
  have i: "0 < length (pending st)" by (simp add: p)
  from late_decode_inserted[OF session_reachable[OF s] disjI1[OF r] i, of 800 600]
  obtain st2 img where b: "pending st1 ! 0 = pending st ! 0"
    and e: "step sample_lib content_image (ImgElOnload 0 800 600) st1 = Inr st2"
      "objects st2 = nextRef st1 # objects st1"
      "heap st2 (nextRef st1) = Some img" "o_type img = ''image''"
      "o_left img = of_nat (p_width (pending st ! 0)) / 2"
      "o_top img = of_nat (p_height (pending st ! 0)) / 2"
      "o_scaleX img =
         (if (of_nat 800 :: rat) / of_nat 600
               > of_nat (p_width (pending st ! 0)) / of_nat (p_height (pending st ! 0))
          then of_nat (p_width (pending st ! 0)) / of_nat 800
          else of_nat (p_height (pending st ! 0)) / of_nat 600)"
    by blast
  have o: "objects st2 = [6, 3, 4, 5]" using e(2) v by simp
  have h: "heap st2 6 = Some img" using e(3) v by simp
  have g: "o_left img = 794 / 2" "o_top img = 1123 / 2" "o_scaleX img = 794 / 800"
    using e(5,6,7) by (simp_all add: p)
  from s r p v b e(1,4) o h g show ?thesis by blast
qed

text \<open>
  The claim that a late decode is rejected fails. The page is mounted in A4 portrait with a
  base image, which starts a decode that captured 794 by 1123. The page size is changed to
  A5 before the decode completes: the scene is rebuilt with the objects 3, 4 and 5 and a
  second decode starts. The first decode then completes and its image, centred for the A4
  page, is the back-most object of the A5 scene; when the second completes too the scene
  holds two base images.
\<close>

theorem stale_decode_lands_in_rebuilt_scene:
  "map_option pending (session sample_lib content_image (Some (1000, 800)) [])
     = Some [\<lparr>p_src = ''data:image/png;base64,iVBORw0KGgo='', p_width = 794, p_height = 1123\<rparr>]
   \<and> map_option objects (session sample_lib content_image (Some (1000, 800))
        [SetPosterSize ''A5'']) = Some [3, 4, 5]
   \<and> map_option canvasWidth (session sample_lib content_image (Some (1000, 800))
        [SetPosterSize ''A5'', ImgElOnload 0 800 600]) = Some 559
   \<and> map_option canvasHeight (session sample_lib content_image (Some (1000, 800))
        [SetPosterSize ''A5'', ImgElOnload 0 800 600]) = Some 794
   \<and> map_option objects (session sample_lib content_image (Some (1000, 800))
        [SetPosterSize ''A5'', ImgElOnload 0 800 600]) = Some [6, 3, 4, 5]
   \<and> map_option o_type (Option.bind (session sample_lib content_image (Some (1000, 800))
        [SetPosterSize ''A5'', ImgElOnload 0 800 600]) (object_at 6)) = Some ''image''
   \<and> map_option o_left (Option.bind (session sample_lib content_image (Some (1000, 800))
        [SetPosterSize ''A5'', ImgElOnload 0 800 600]) (object_at 6)) = Some (794 / 2)
   \<and> map_option o_top (Option.bind (session sample_lib content_image (Some (1000, 800))
        [SetPosterSize ''A5'', ImgElOnload 0 800 600]) (object_at 6)) = Some (1123 / 2)
   \<and> map_option pending (session sample_lib content_image (Some (1000, 800))
        [SetPosterSize ''A5'', ImgElOnload 0 800 600])
     = Some [\<lparr>p_src = ''data:image/png;base64,iVBORw0KGgo='', p_width = 559, p_height = 794\<rparr>]
   \<and> map_option objects (session sample_lib content_image (Some (1000, 800))
        [SetPosterSize ''A5'', ImgElOnload 0 800 600, ImgElOnload 0 800 600])
     = Some [7, 6, 3, 4, 5]"
  by (simp add: eval_defs)

text \<open>
  Where the layout in force has all three hints, the three text boxes are placed at the
  hinted percentages of the page; the default layout has all three.
\<close>

lemma loadContent_positions:
  assumes d: "getCanvasDimensions (posterSize st) (orientation st) = Inr (w, h)"
    and l: "(case layout_json c of None \<Rightarrow> default_layout | Some l \<Rightarrow> l) ''headline'' = Some ph"
           "(case layout_json c of None \<Rightarrow> default_layout | Some l \<Rightarrow> l) ''tagline'' = Some pt"
           "(case layout_json c of None \<Rightarrow> default_layout | Some l \<Rightarrow> l) ''cta_text'' = Some pc"
    and w: "wf st"
  shows "\<exists>st' a b d. loadContent L c st = Inr st'
      \<and> objects st' = [nextRef st, Suc (nextRef st), Suc (Suc (nextRef st))]
      \<and> heap st' (nextRef st) = Some a
      \<and> heap st' (Suc (nextRef st)) = Some b
      \<and> heap st' (Suc (Suc (nextRef st))) = Some d
      \<and> o_left a = (pos_x ph / 100) * of_nat w \<and> o_top a = (pos_y ph / 100) * of_nat h
      \<and> o_left b = (pos_x pt / 100) * of_nat w \<and> o_top b = (pos_y pt / 100) * of_nat h
      \<and> o_left d = (pos_x pc / 100) * of_nat w \<and> o_top d = (pos_y pc / 100) * of_nat h
      \<and> o_text a = headline (captions c) \<and> o_text b = tagline (captions c)
      \<and> o_text d = cta (captions c)"
  unfolding loadContent_unfold[OF d] l canvas_clear_result[OF w]
  by (cases "images_b64 c")
     (simp_all add: addText_def bindE_def canvas_add_def new_Textbox_def)

section \<open>Shadows of text boxes\<close>

lemma shadow_invI:
  assumes "shadow_inv st"
    and "\<And>r ob. heap st' r = Some ob \<Longrightarrow> heap st r = Some ob \<or> shadow_ok ob"
  shows "shadow_inv st'"
  using assms unfolding shadow_inv_def by blast

lemma shadow_inv_heap_eq: "heap st' = heap st \<Longrightarrow> shadow_inv st \<Longrightarrow> shadow_inv st'"
  by (simp add: shadow_inv_def)

lemma shadow_inv_upd:
  assumes "shadow_inv st" "heap st' = (heap st)(r \<mapsto> ob)" "shadow_ok ob"
  shows "shadow_inv st'"
  by (rule shadow_invI[OF assms(1)]) (auto simp: assms(2,3) split: if_splits)

lemma shadow_ok_image: "o_type ob = ''image'' \<Longrightarrow> shadow_ok ob"
  by (simp add: shadow_ok_def)

lemma heap_canvas_discardActiveObject: "heap (canvas_discardActiveObject st) = heap st"
  by (simp add: canvas_discardActiveObject_def handleClear_def split: option.splits)

lemma heap_canvas_clear: "heap (canvas_clear st) = heap st"
  by (simp add: canvas_clear_def heap_canvas_discardActiveObject)

lemma heap_canvas_remove: "heap (canvas_remove r st) = heap st"
  by (simp add: canvas_remove_def Let_def heap_canvas_discardActiveObject)

lemma heap_handleDelete: "heap (handleDelete st) = heap st"
  by (simp add: handleDelete_def heap_canvas_remove split: option.splits)

lemma heap_reorder: "heap (bringFront st) = heap st" "heap (sendBack st) = heap st"
  by (simp_all add: bringFront_def sendBack_def canvas_bringObjectToFront_def
      canvas_sendObjectToBack_def split: option.splits)

lemma shadow_resizeCanvas: "resizeCanvas st = Inr st' \<Longrightarrow> shadow_inv st \<Longrightarrow> shadow_inv st'"
  by (drule resizeCanvas_result) (auto simp: shadow_inv_def)

lemma shadow_addText:
  assumes a: "addText L w h txt p extra st = Inr st'"
    and e: "\<And>ob. o_shadow (extra ob) = o_shadow ob"
    and d: "o_shadow (textbox_defaults L) = None"
    and i: "shadow_inv st"
  shows "shadow_inv st'"
proof (cases p)
  case None
  with a show ?thesis by (simp add: addText_def)
next
  case (Some hint)
  with a obtain ob where st': "st' = canvas_add (initDimensions L (extra ob)) st"
    and o: "o_shadow ob = None"
    by (auto simp: addText_def new_Textbox_def d)
  have "shadow_ok (initDimensions L (extra ob))" by (simp add: shadow_ok_def e o)
  then show ?thesis
    by (intro shadow_inv_upd[OF i, of _ "nextRef st" "initDimensions L (extra ob)"])
       (simp_all add: st' canvas_add_def)
qed

lemma shadow_loadContent:
  assumes l: "loadContent L c st = Inr st'"
    and d: "o_shadow (textbox_defaults L) = None"
    and i: "shadow_inv st"
  shows "shadow_inv st'"
proof -
  from l obtain dm where "getCanvasDimensions (posterSize st) (orientation st) = Inr dm"
    by (cases "getCanvasDimensions (posterSize st) (orientation st)")
       (simp_all add: loadContent_def)
  then obtain w h where dd: "getCanvasDimensions (posterSize st) (orientation st) = Inr (w, h)"
    by (cases dm) simp
  define st2 where "st2 = (case images_b64 c of
                  [] \<Rightarrow> canvas_clear st
                | firstImg # _ \<Rightarrow>
                    if firstImg \<noteq> [] then
                      (canvas_clear st)\<lparr>pending := pending (canvas_clear st) @
                         [\<lparr>p_src = image_url firstImg, p_width = w, p_height = h\<rparr>]\<rparr>
                    else canvas_clear st)"
  have "heap st2 = heap st"
    unfolding st2_def by (simp add: heap_canvas_clear split: list.splits)
  then have i2: "shadow_inv st2" using i by (rule shadow_inv_heap_eq)
  note lc = loadContent_unfold[OF dd, of L c, folded st2_def]
  from l[unfolded lc] obtain st3 where
    s3: "addText L w h (headline (captions c))
               ((case layout_json c of None \<Rightarrow> default_layout | Some l \<Rightarrow> l) ''headline'')
               (\<lambda>ob. ob\<lparr>o_fontWeight := ''bold'', o_fontSize := 36\<rparr>) st2 = Inr st3"
    and r3: "bindE (addText L w h (tagline (captions c))
               ((case layout_json c of None \<Rightarrow> default_layout | Some l \<Rightarrow> l) ''tagline'')
               (\<lambda>ob. ob\<lparr>o_fontStyle := ''italic'', o_fontSize := 24\<rparr>) st3)
        (\<lambda>st4. addText L w h (cta (captions c))
               ((case layout_json c of None \<Rightarrow> default_layout | Some l \<Rightarrow> l) ''cta_text'')
               (\<lambda>ob. ob\<lparr>o_fill := ''#00bfff'', o_fontSize := 20\<rparr>) st4) = Inr st'"
    by (blast dest: bindE_Inr)
  from r3 obtain st4 where
    s4: "addText L w h (tagline (captions c))
               ((case layout_json c of None \<Rightarrow> default_layout | Some l \<Rightarrow> l) ''tagline'')
               (\<lambda>ob. ob\<lparr>o_fontStyle := ''italic'', o_fontSize := 24\<rparr>) st3 = Inr st4"
    and s5: "addText L w h (cta (captions c))
               ((case layout_json c of None \<Rightarrow> default_layout | Some l \<Rightarrow> l) ''cta_text'')
               (\<lambda>ob. ob\<lparr>o_fill := ''#00bfff'', o_fontSize := 20\<rparr>) st4 = Inr st'"
    by (blast dest: bindE_Inr)
  have i3: "shadow_inv st3" by (rule shadow_addText[OF s3 _ d i2]) simp
  have i4: "shadow_inv st4" by (rule shadow_addText[OF s4 _ d i3]) simp
  show ?thesis by (rule shadow_addText[OF s5 _ d i4]) simp
qed

lemma shadow_imgEl_onload:
  assumes "shadow_inv st"
  shows "shadow_inv (imgEl_onload L w h iw ih st)"
  by (rule shadow_inv_upd[OF assms, of _ "nextRef st"
        "(new_Image L iw ih)
              \<lparr>o_originX := ''center'', o_originY := ''center'',
               o_scaleX := (if (of_nat iw :: rat) / of_nat ih > of_nat w / of_nat h
                            then of_nat w / of_nat iw else of_nat h / of_nat ih),
               o_scaleY := (if (of_nat iw :: rat) / of_nat ih > of_nat w / of_nat h
                            then of_nat w / of_nat iw else of_nat h / of_nat ih),
               o_left := of_nat w / 2, o_top := of_nat h / 2\<rparr>"])
     (simp_all add: imgEl_onload_def Let_def canvas_add_def canvas_sendObjectToBack_def
        shadow_ok_image new_Image_def)

lemma shadow_img_onload:
  assumes "shadow_inv st"
  shows "shadow_inv (img_onload L iw ih st)"
  by (rule shadow_inv_upd[OF assms, of _ "nextRef st"
        "(new_Image L iw ih)\<lparr>o_left := 50, o_top := 50, o_scaleX := 1 / 2, o_scaleY := 1 / 2\<rparr>"])
     (simp_all add: img_onload_def Let_def canvas_setActiveObject_frame canvas_add_def
        shadow_ok_image new_Image_def)

lemma handleAddText_heap_upd:
  "heap (handleAddText L st) = (heap st)(nextRef st \<mapsto>
     new_Textbox L ''New text''
             (\<lambda>ob. ob
                \<lparr>o_left := 100,
                 o_top := 100,
                 o_width := 300,
                 o_fontSize := fontSize st,
                 o_fontFamily := fontFamily st,
                 o_fontWeight := fontWeight st,
                 o_fontStyle := fontStyle st,
                 o_underline := underline st,
                 o_fill := fontColor st,
                 o_stroke := Some (strokeColor st),
                 o_strokeWidth := strokeWidth st,
                 o_backgroundColor := CssRgba (bgColor st) (bgOpacity st),
                 o_shadow := (if shadowBlur st \<noteq> 0
                              then Some \<lparr>sh_color = shadowColor st, sh_blur = shadowBlur st\<rparr>
                              else None)\<rparr>))"
  unfolding handleAddText_def Let_def
  by (simp add: canvas_setActiveObject_frame) (simp add: canvas_add_def)

lemma shadow_handleAddText:
  assumes "shadow_inv st"
  shows "shadow_inv (handleAddText L st)"
  by (rule shadow_inv_upd[OF assms handleAddText_heap_upd])
     (simp add: shadow_ok_def new_Textbox_def)

lemma shadow_flip:
  assumes "shadow_inv st"
  shows "shadow_inv (flipHorizontal st)" "shadow_inv (flipVertical st)"
proof -
  have k: "\<And>r ob f. heap st r = Some ob \<Longrightarrow> o_type (f ob) = o_type ob \<Longrightarrow>
     o_shadow (f ob) = o_shadow ob \<Longrightarrow> shadow_inv (st\<lparr>heap := (heap st)(r \<mapsto> f ob)\<rparr>)"
  proof -
    fix r ob and f :: "fobject \<Rightarrow> fobject"
    assume h: "heap st r = Some ob" and t: "o_type (f ob) = o_type ob"
      and s: "o_shadow (f ob) = o_shadow ob"
    from assms h have "shadow_ok ob" by (auto simp: shadow_inv_def)
    then have "shadow_ok (f ob)" by (simp add: shadow_ok_def t s)
    then show "shadow_inv (st\<lparr>heap := (heap st)(r \<mapsto> f ob)\<rparr>)"
      by (intro shadow_inv_upd[OF assms, of _ r "f ob"]) simp_all
  qed
  show "shadow_inv (flipHorizontal st)"
    using assms k[where f = "\<lambda>ob. ob\<lparr>o_flipX := \<not> o_flipX ob\<rparr>"]
    by (simp add: flipHorizontal_def split: option.splits)
  show "shadow_inv (flipVertical st)"
    using assms k[where f = "\<lambda>ob. ob\<lparr>o_flipY := \<not> o_flipY ob\<rparr>"]
    by (simp add: flipVertical_def split: option.splits)
qed

lemma shadow_updateSelected:
  assumes i: "shadow_inv st" and h: "heap st' = heap st"
    and k: "\<And>ob. shadow_ok ob \<Longrightarrow> o_type ob = ''textbox'' \<Longrightarrow> shadow_ok (set_prop L pv ob)"
  shows "shadow_inv (updateSelected L pv st')"
proof -
  have i': "shadow_inv st'" using h i by (rule shadow_inv_heap_eq)
  show ?thesis
  proof (cases "selectedObject st'")
    case None
    then show ?thesis using i' by (simp add: updateSelected_def)
  next
    case (Some r)
    show ?thesis
    proof (cases "heap st' r")
      case None
      with Some show ?thesis using i' by (simp add: updateSelected_def)
    next
      case (Some ob)
      note ob = this
      show ?thesis
      proof (cases "o_type ob = ''textbox''")
        case True
        from i' ob have "shadow_ok ob" by (auto simp: shadow_inv_def)
        from k[OF this True] have "shadow_ok (set_prop L pv ob)" .
        from shadow_inv_upd[OF i' _ this, of "updateSelected L pv st'" r]
        show ?thesis using \<open>selectedObject st' = Some r\<close> ob True
          by (simp add: updateSelected_def)
      next
        case False
        with ob \<open>selectedObject st' = Some r\<close> show ?thesis using i'
          by (simp add: updateSelected_def)
      qed
    qed
  qed
qed

lemma shadow_controls:
  assumes i: "shadow_inv st"
  shows "shadow_inv (change_text L v st)" "shadow_inv (click_bold L st)"
    "shadow_inv (click_italic L st)" "shadow_inv (click_underline L st)"
    "shadow_inv (change_fontColor L v st)" "shadow_inv (change_strokeColor L v st)"
    "shadow_inv (change_strokeWidth L x st)" "shadow_inv (change_shadowBlur L x st)"
    "shadow_inv (change_shadowColor L v st)" "shadow_inv (change_bgColor L v st)"
    "shadow_inv (change_bgOpacity L x st)" "shadow_inv (change_fontSize L x st)"
    "shadow_inv (change_textAlign L v st)"
  unfolding change_text_def click_bold_def click_italic_def click_underline_def
    change_fontColor_def change_strokeColor_def change_strokeWidth_def change_shadowBlur_def
    change_shadowColor_def change_bgColor_def change_bgOpacity_def change_fontSize_def
    change_textAlign_def Let_def
  by (rule shadow_updateSelected[OF i]; simp add: shadow_ok_def)+

lemma shadow_initial: "shadow_inv (initial_state cont)"
  by (simp add: shadow_inv_def initial_state_def)

lemma shadow_rebuild:
  assumes d: "o_shadow (textbox_defaults L) = None" and i: "shadow_inv st0"
    and r: "resizeCanvas st0 = Inr st1" and l: "loadContent L c st1 = Inr st'"
  shows "shadow_inv st'"
  by (rule shadow_loadContent[OF l d shadow_resizeCanvas[OF r i]])

lemma shadow_mount:
  assumes d: "o_shadow (textbox_defaults L) = None" and m: "mount L c cont = Inr st"
  shows "shadow_inv st"
proof -
  from m obtain st1 where r: "resizeCanvas (initial_state cont) = Inr st1"
    and l: "loadContent L c st1 = Inr st"
    unfolding mount_def by (blast dest: bindE_Inr)
  from shadow_rebuild[OF d shadow_initial r l] show ?thesis .
qed

lemma shadow_setPosterSize:
  assumes d: "o_shadow (textbox_defaults L) = None" and i: "shadow_inv st"
    and s: "setPosterSize L c k st = Inr st'"
  shows "shadow_inv st'"
proof (cases "k = posterSize st")
  case True
  with s i show ?thesis by (simp add: setPosterSize_def)
next
  case False
  with s obtain st1 where r: "resizeCanvas (st\<lparr>posterSize := k\<rparr>) = Inr st1"
    and l: "loadContent L c st1 = Inr st'"
    unfolding setPosterSize_def by (auto dest: bindE_Inr)
  have "shadow_inv (st\<lparr>posterSize := k\<rparr>)" by (rule shadow_inv_heap_eq[OF _ i]) simp
  from shadow_rebuild[OF d this r l] show ?thesis .
qed

lemma shadow_setOrientation:
  assumes d: "o_shadow (textbox_defaults L) = None" and i: "shadow_inv st"
    and s: "setOrientation L c v st = Inr st'"
  shows "shadow_inv st'"
proof (cases "v = orientation st")
  case True
  with s i show ?thesis by (simp add: setOrientation_def)
next
  case False
  with s obtain st1 where r: "resizeCanvas (st\<lparr>orientation := v\<rparr>) = Inr st1"
    and l: "loadContent L c st1 = Inr st'"
    unfolding setOrientation_def by (auto dest: bindE_Inr)
  have "shadow_inv (st\<lparr>orientation := v\<rparr>)" by (rule shadow_inv_heap_eq[OF _ i]) simp
  from shadow_rebuild[OF d this r l] show ?thesis .
qed

lemma step_shadow:
  assumes d: "o_shadow (textbox_defaults L) = None" and i: "shadow_inv st"
    and s: "step L c e st = Inr st'"
  shows "shadow_inv st'"
proof (cases e)
  case (Resize cw ch)
  have "shadow_inv (st\<lparr>container := Some (cw, ch)\<rparr>)" by (rule shadow_inv_heap_eq[OF _ i]) simp
  with s Resize show ?thesis by (auto dest: shadow_resizeCanvas)
next
  case (SetPosterSize k)
  with s show ?thesis using shadow_setPosterSize[OF d i] by simp
next
  case (SetOrientation v)
  with s show ?thesis using shadow_setOrientation[OF d i] by simp
next
  case (ImgElOnload n iw ih)
  have "shadow_inv (st\<lparr>pending := take n (pending st) @ drop (Suc n) (pending st)\<rparr>)"
    by (rule shadow_inv_heap_eq[OF _ i]) simp
  with s ImgElOnload i show ?thesis
    by (auto simp: Let_def split: if_splits intro: shadow_imgEl_onload)
next
  case (SelectObject r)
  with s show ?thesis
    by (auto intro!: shadow_inv_heap_eq[OF _ i] simp: canvas_setActiveObject_frame)
next
  case ClickEmpty
  with s show ?thesis
    by (auto intro!: shadow_inv_heap_eq[OF _ i] simp: heap_canvas_discardActiveObject)
next
  case AddText
  with s show ?thesis using shadow_handleAddText[OF i] by auto
next
  case (ImgOnload iw ih)
  with s show ?thesis using shadow_img_onload[OF i] by auto
next
  case Delete
  with s show ?thesis by (auto intro!: shadow_inv_heap_eq[OF _ i] simp: heap_handleDelete)
next
  case BringFront
  with s show ?thesis by (auto intro!: shadow_inv_heap_eq[OF _ i] simp: heap_reorder)
next
  case SendBack
  with s show ?thesis by (auto intro!: shadow_inv_heap_eq[OF _ i] simp: heap_reorder)
next
  case FlipH
  with s show ?thesis using shadow_flip(1)[OF i] by auto
next
  case FlipV
  with s show ?thesis using shadow_flip(2)[OF i] by auto
next
  case (EditText v)
  with s show ?thesis using shadow_controls(1)[OF i] by auto
next
  case ClickBold
  with s show ?thesis using shadow_controls(2)[OF i] by auto
next
  case ClickItalic
  with s show ?thesis using shadow_controls(3)[OF i] by auto
next
  case ClickUnderline
  with s show ?thesis using shadow_controls(4)[OF i] by auto
next
  case (FontColor v)
  with s show ?thesis using shadow_controls(5)[OF i] by auto
next
  case (StrokeColor v)
  with s show ?thesis using shadow_controls(6)[OF i] by auto
next
  case (StrokeWidth x)
  with s show ?thesis using shadow_controls(7)[OF i] by auto
next
  case (ShadowBlur x)
  with s show ?thesis using shadow_controls(8)[OF i] by auto
next
  case (ShadowColor v)
  with s show ?thesis using shadow_controls(9)[OF i] by auto
next
  case (BgColor v)
  with s show ?thesis using shadow_controls(10)[OF i] by auto
next
  case (BgOpacity x)
  with s show ?thesis using shadow_controls(11)[OF i] by auto
next
  case (FontSize x)
  with s show ?thesis using shadow_controls(12)[OF i] by auto
next
  case (TextAlign v)
  with s show ?thesis using shadow_controls(13)[OF i] by auto
qed

lemma reachable_shadow:
  "reachable L c st \<Longrightarrow> o_shadow (textbox_defaults L) = None \<Longrightarrow> shadow_inv st"
proof (induction rule: reachable.induct)
  case (reach_mount cont st)
  then show ?case by (auto intro: shadow_mount)
next
  case (reach_step st e st')
  then show ?case by (auto intro: step_shadow)
qed

text \<open>
  C10. In every state of a session no text box carries a shadow of blur 0, provided the
  library's default text box has no shadow. The text box \<^verbatim>\<open>handleAddText\<close> creates has a
  shadow exactly when the form's shadow blur is nonzero, and then the shadow carries that
  blur. On a selected text box the shadow-blur control sets a shadow of the chosen blur when
  it is nonzero and removes the shadow when it is 0, and the shadow-colour control keeps the
  same rule; after each of these operations the text box has a shadow if and only if the
  form's shadow blur is nonzero.
\<close>

theorem shadow_iff_blur:
  "(o_shadow (textbox_defaults L) = None \<and> reachable L c st
      \<and> heap st q = Some tb \<and> o_type tb = ''textbox'' \<and> o_shadow tb = Some sh
      \<longrightarrow> sh_blur sh \<noteq> 0)
   \<and> (\<exists>t. heap (handleAddText L st) (nextRef st) = Some t
        \<and> o_type t = ''textbox''
        \<and> o_shadow t = (if shadowBlur st \<noteq> 0
                         then Some \<lparr>sh_color = shadowColor st, sh_blur = shadowBlur st\<rparr>
                         else None)
        \<and> ((o_shadow t \<noteq> None) = (shadowBlur (handleAddText L st) \<noteq> 0)))
   \<and> (selectedObject st = Some r \<and> heap st r = Some ob \<and> o_type ob = ''textbox'' \<longrightarrow>
        (\<exists>t. heap (change_shadowBlur L val st) r = Some t
            \<and> o_shadow t = (if val \<noteq> 0 then Some \<lparr>sh_color = shadowColor st, sh_blur = val\<rparr>
                             else None)
            \<and> shadowBlur (change_shadowBlur L val st) = val
            \<and> ((o_shadow t \<noteq> None) = (shadowBlur (change_shadowBlur L val st) \<noteq> 0)))
        \<and> (\<exists>t. heap (change_shadowBlur L 0 st) r = Some t \<and> o_shadow t = None)
        \<and> (\<exists>t. heap (change_shadowColor L v st) r = Some t
            \<and> o_shadow t = (if shadowBlur st \<noteq> 0
                             then Some \<lparr>sh_color = v, sh_blur = shadowBlur st\<rparr> else None)
            \<and> ((o_shadow t \<noteq> None) = (shadowBlur (change_shadowColor L v st) \<noteq> 0))))"
proof -
  have a: "\<exists>t. heap (handleAddText L st) (nextRef st) = Some t
        \<and> o_type t = ''textbox''
        \<and> o_shadow t = (if shadowBlur st \<noteq> 0
                         then Some \<lparr>sh_color = shadowColor st, sh_blur = shadowBlur st\<rparr>
                         else None)
        \<and> ((o_shadow t \<noteq> None) = (shadowBlur (handleAddText L st) \<noteq> 0))"
    unfolding handleAddText_heap handleAddText_shadowBlur by (simp add: new_Textbox_def)
  have b: "selectedObject st = Some r \<and> heap st r = Some ob \<and> o_type ob = ''textbox'' \<longrightarrow>
        (\<exists>t. heap (change_shadowBlur L val st) r = Some t
            \<and> o_shadow t = (if val \<noteq> 0 then Some \<lparr>sh_color = shadowColor st, sh_blur = val\<rparr>
                             else None)
            \<and> shadowBlur (change_shadowBlur L val st) = val
            \<and> ((o_shadow t \<noteq> None) = (shadowBlur (change_shadowBlur L val st) \<noteq> 0)))
        \<and> (\<exists>t. heap (change_shadowBlur L 0 st) r = Some t \<and> o_shadow t = None)
        \<and> (\<exists>t. heap (change_shadowColor L v st) r = Some t
            \<and> o_shadow t = (if shadowBlur st \<noteq> 0
                             then Some \<lparr>sh_color = v, sh_blur = shadowBlur st\<rparr> else None)
            \<and> ((o_shadow t \<noteq> None) = (shadowBlur (change_shadowColor L v st) \<noteq> 0)))"
    by (simp add: change_shadowBlur_def change_shadowColor_def updateSelected_def)
  have i: "o_shadow (textbox_defaults L) = None \<and> reachable L c st
      \<and> heap st q = Some tb \<and> o_type tb = ''textbox'' \<and> o_shadow tb = Some sh
      \<longrightarrow> sh_blur sh \<noteq> 0"
  proof (intro impI, elim conjE)
    assume d: "o_shadow (textbox_defaults L) = None" and r: "reachable L c st"
      and h: "heap st q = Some tb" and t: "o_type tb = ''textbox''" and s: "o_shadow tb = Some sh"
    from reachable_shadow[OF r d] h have "shadow_ok tb" by (auto simp: shadow_inv_def)
    with t s show "sh_blur sh \<noteq> 0" by (simp add: shadow_ok_def)
  qed
  from i a b show ?thesis by (intro conjI)
qed

theorem shadow_iff_blur_witness:
  "\<exists>st. session sample_lib content_plain (Some (1000, 800)) [SelectObject 0, ShadowBlur 5] = Some st
      \<and> shadowBlur st = 5
      \<and> map_option o_shadow (heap st 0) = Some (Some \<lparr>sh_color = ''#000000'', sh_blur = 5\<rparr>)
      \<and> map_option o_shadow (heap (handleAddText sample_lib st) 3)
          = Some (Some \<lparr>sh_color = ''#000000'', sh_blur = 5\<rparr>)
      \<and> map_option o_shadow (heap (change_shadowBlur sample_lib 0 st) 0) = Some None
      \<and> shadowBlur (change_shadowBlur sample_lib 0 st) = 0
      \<and> map_option o_shadow (heap (change_shadowColor sample_lib ''#ff0000'' st) 0)
          = Some (Some \<lparr>sh_color = ''#ff0000'', sh_blur = 5\<rparr>)"
proof -
  have "\<exists>st ob. session sample_lib content_plain (Some (1000, 800)) [SelectObject 0, ShadowBlur 5] = Some st
         \<and> selectedObject st = Some 0 \<and> heap st 0 = Some ob \<and> o_type ob = ''textbox''
         \<and> o_shadow ob = Some \<lparr>sh_color = ''#000000'', sh_blur = 5\<rparr>
         \<and> shadowBlur st = 5 \<and> shadowColor st = ''#000000'' \<and> nextRef st = 3"
    by (simp add: eval_defs)
  then obtain st ob where s: "session sample_lib content_plain (Some (1000, 800)) [SelectObject 0, ShadowBlur 5] = Some st"
    and f: "selectedObject st = Some 0" "heap st 0 = Some ob" "o_type ob = ''textbox''"
    and v: "o_shadow ob = Some \<lparr>sh_color = ''#000000'', sh_blur = 5\<rparr>"
       "shadowBlur st = 5" "shadowColor st = ''#000000''" "nextRef st = 3"
    by blast
  have d: "o_shadow (textbox_defaults sample_lib) = None" by (simp add: sample_lib_def)
  from shadow_iff_blur[of sample_lib content_plain st 0 ob "\<lparr>sh_color = ''#000000'', sh_blur = 5\<rparr>"
      0 ob 0 "''#ff0000''"] f v d session_reachable[OF s]
  have "map_option o_shadow (heap (handleAddText sample_lib st) 3)
          = Some (Some \<lparr>sh_color = ''#000000'', sh_blur = 5\<rparr>)
      \<and> map_option o_shadow (heap (change_shadowBlur sample_lib 0 st) 0) = Some None
      \<and> shadowBlur (change_shadowBlur sample_lib 0 st) = 0
      \<and> map_option o_shadow (heap (change_shadowColor sample_lib ''#ff0000'' st) 0)
          = Some (Some \<lparr>sh_color = ''#ff0000'', sh_blur = 5\<rparr>)"
    by auto
  with s f v show ?thesis by auto
qed

end
